theory Spec2Isabelle
  imports Complex_Main "HOL-Library.Word" "HOL-Library.Sublist"
begin

section \<open>Botworld asset pipeline: data model\<close>

text \<open>
  The development embeds \<^verbatim>\<open>scripts/generate-world-assets.py\<close> (the catalog driven
  pipeline) and the post-processor of \<^verbatim>\<open>scripts/generate-new-tiles.py\<close>.
  Python strings are \<open>string\<close>, Python ints are \<open>int\<close>, numpy \<open>uint8\<close> channels are
  \<open>8 word\<close>. The external collaborators (the Gemini client, Pillow's decoder and its
  Lanczos filter, the credential) are fields of the record \<open>env\<close>; the file system
  below the asset directory, the number of API calls made so far and everything the
  process prints or sleeps are the record \<open>world\<close>, passed through every operation.
\<close>

type_synonym byte = "8 word"
type_synonym path = string

subsection \<open>Asset specs and the prompt synthesizer\<close>

text \<open>
  The fields of the nested dictionary built by \<^verbatim>\<open>make_spec\<close> that depend on its
  arguments; the remaining entries of the dictionary are literals that no function reads.
\<close>

record spec =
  meta_title :: string
  subject_name :: string
  subject_variant :: string
  width_px :: int
  height_px :: int
  style_art_direction :: string
  style_extra :: string
  style_description :: string

definition STYLE_PREFIX :: string where
  "STYLE_PREFIX =
     ''2D pixel art, isometric view, fantasy RPG style, '' @
     ''warm color palette, soft shadows, 16-bit era aesthetic, '' @
     ''transparent background, game asset, consistent top-left lighting, '' @
     ''clean crisp pixel edges''"

definition make_spec :: "string \<Rightarrow> string \<Rightarrow> int \<times> int \<Rightarrow> string \<Rightarrow> string \<Rightarrow> spec" where
  "make_spec title description dimensions category extra_style =
     \<lparr> meta_title = title,
       subject_name = title,
       subject_variant = category,
       width_px = fst dimensions,
       height_px = snd dimensions,
       style_art_direction = STYLE_PREFIX,
       style_extra = extra_style,
       style_description = description \<rparr>"

text \<open>Decimal rendering of an integer, as an f-string renders a Python int.\<close>

definition digit_char :: "nat \<Rightarrow> char" where
  "digit_char d = ''0123456789'' ! d"

fun str_nat :: "nat \<Rightarrow> string" where
  "str_nat n = (if n < 10 then [digit_char n] else str_nat (n div 10) @ [digit_char (n mod 10)])"

declare str_nat.simps [simp del]

definition str_int :: "int \<Rightarrow> string" where
  "str_int i = (if i < 0 then CHR ''-'' # str_nat (nat (- i)) else str_nat (nat i))"

text \<open>\<^verbatim>\<open>" ".join(parts)\<close>\<close>

fun join_space :: "string list \<Rightarrow> string" where
  "join_space [] = []"
| "join_space [p] = p"
| "join_space (p # q # ps) = p @ '' '' @ join_space (q # ps)"

definition prompt_parts :: "spec \<Rightarrow> string list" where
  "prompt_parts s =
     [ ''Generate a single game asset image.'',
       ''Art style: '' @ style_art_direction s @ ''.'',
       ''Type: '' @ style_extra s @ ''.'',
       ''Subject: '' @ meta_title s @ ''.'',
       ''Description: '' @ style_description s @ ''.'',
       ''Dimensions: '' @ str_int (width_px s) @ ''x'' @ str_int (height_px s) @ '' pixels.'',
       ''Must have transparent background (PNG with alpha channel).'',
       ''No text, no labels, no watermarks. Just the game asset sprite.'' ]"

definition build_prompt :: "spec \<Rightarrow> string" where
  "build_prompt s = join_space (prompt_parts s)"

subsection \<open>Images and the two alpha rules\<close>

record pixel =
  red :: byte
  green :: byte
  blue :: byte
  alpha :: byte

text \<open>
  An RGBA image, and equally the numpy array of shape \<open>(height, width, 4)\<close> made from
  it: a grid of \<open>img_height\<close> rows of \<open>img_width\<close> pixels each. The type holds the
  well-shaped grids only, so the size of an image is the size of its grid.
  \<^verbatim>\<open>np.array(img)\<close> and \<^verbatim>\<open>Image.fromarray(data)\<close> keep the shape, and the masked
  assignments of the alpha rule write inside the array (\<open>map_pixels\<close>).
\<close>

definition well_shaped :: "nat \<times> nat \<times> pixel list list \<Rightarrow> bool" where
  "well_shaped g \<longleftrightarrow>
     length (snd (snd g)) = fst (snd g) \<and> (\<forall>row \<in> set (snd (snd g)). length row = fst g)"

typedef image = "{g. well_shaped g}"
  by (intro exI [of _ "(0, 0, [])"]) (simp add: well_shaped_def)

setup_lifting type_definition_image

lift_definition img_width :: "image \<Rightarrow> nat" is fst .

lift_definition img_height :: "image \<Rightarrow> nat" is "\<lambda>g. fst (snd g)" .

lift_definition pixels :: "image \<Rightarrow> pixel list list" is "\<lambda>g. snd (snd g)" .

text \<open>The image of the given width and height whose pixel at column \<open>x\<close>, row \<open>y\<close> is \<open>f x y\<close>.\<close>

lift_definition new_image :: "nat \<Rightarrow> nat \<Rightarrow> (nat \<Rightarrow> nat \<Rightarrow> pixel) \<Rightarrow> image"
  is "\<lambda>w h f. (w, h, map (\<lambda>y. map (\<lambda>x. f x y) [0..<w]) [0..<h])"
  by (simp add: well_shaped_def)

lift_definition map_pixels :: "(pixel \<Rightarrow> pixel) \<Rightarrow> image \<Rightarrow> image"
  is "\<lambda>f g. (fst g, fst (snd g), map (map f) (snd (snd g)))"
  by (auto simp: well_shaped_def)

text \<open>\<^verbatim>\<open>generate-world-assets.py\<close>: thresholds 240 and 220.\<close>

definition white_mask :: "pixel \<Rightarrow> bool" where
  "white_mask p \<longleftrightarrow> 240 < red p \<and> 240 < green p \<and> 240 < blue p"

definition near_white :: "pixel \<Rightarrow> bool" where
  "near_white p \<longleftrightarrow> 220 < red p \<and> 220 < green p \<and> 220 < blue p \<and> \<not> white_mask p"

text \<open>
  \<^verbatim>\<open>(a * 0.3).astype(np.uint8)\<close> for a \<open>uint8\<close> value \<open>a\<close>: the product is taken in
  double precision and truncated. For each of the 256 values of \<open>a\<close> the truncated
  double equals \<open>\<lfloor>3a / 10\<rfloor>\<close> (the relative error of the double nearest to 0.3 is below
  half a unit in the last place, so a multiple of ten gives the exact integer, and any
  other value is at least 0.1 away from an integer).
\<close>

definition scale_alpha :: "byte \<Rightarrow> byte" where
  "scale_alpha a = of_nat (unat a * 3 div 10)"

text \<open>
  The two assignments \<^verbatim>\<open>data[white_mask, 3] = 0\<close> and
  \<^verbatim>\<open>data[near_white, 3] = (data[near_white, 3] * 0.3).astype(np.uint8)\<close>, in this
  order, seen at one pixel. Both masks are computed before the first assignment, from
  the colour channels of the pixel as it was.
\<close>

definition clean_pixel :: "pixel \<Rightarrow> pixel" where
  "clean_pixel p =
     (let p1 = (if white_mask p then p\<lparr>alpha := 0\<rparr> else p)
      in if near_white p then p1\<lparr>alpha := scale_alpha (alpha p1)\<rparr> else p1)"

definition clean_background :: "image \<Rightarrow> image" where
  "clean_background data = map_pixels clean_pixel data"

text \<open>\<^verbatim>\<open>generate-new-tiles.py\<close>: thresholds 230 and 200, near-white alpha set to 100.\<close>

definition tiles_white_mask :: "pixel \<Rightarrow> bool" where
  "tiles_white_mask p \<longleftrightarrow> 230 < red p \<and> 230 < green p \<and> 230 < blue p"

definition tiles_near_white :: "pixel \<Rightarrow> bool" where
  "tiles_near_white p \<longleftrightarrow>
     200 < red p \<and> 200 < green p \<and> 200 < blue p \<and> \<not> tiles_white_mask p"

definition tiles_clean_pixel :: "pixel \<Rightarrow> pixel" where
  "tiles_clean_pixel p =
     (let p1 = (if tiles_white_mask p then p\<lparr>alpha := 0\<rparr> else p)
      in if tiles_near_white p then p1\<lparr>alpha := 100\<rparr> else p1)"

definition tiles_clean_background :: "image \<Rightarrow> image" where
  "tiles_clean_background data = map_pixels tiles_clean_pixel data"

subsection \<open>The world the pipeline acts on\<close>

text \<open>
  The exceptions that can leave a function of the script, and a Python float: the
  value of \<^verbatim>\<open>--delay\<close> is whatever \<^verbatim>\<open>float\<close> parses, also \<^verbatim>\<open>nan\<close> and \<^verbatim>\<open>inf\<close>.
\<close>

datatype py_exception =
    FileNotFoundError | FileExistsError | NotADirectoryError | PermissionError
  | UnidentifiedImageError | ValueError | OverflowError | MemoryError | ImportError

datatype pyfloat = Finite real | PosInf | NegInf | NaN

text \<open>
  A file below the asset directory holds either the bytes the service returned
  (\<open>Raw\<close>) or an image stored by \<^verbatim>\<open>result.save\<close> (\<open>Png\<close>: a lossless RGBA file,
  every catalog path ends in \<^verbatim>\<open>.png\<close>).
\<close>

datatype content = Raw "byte list" | Png image

datatype line =
    UnknownCategoryLine string
  | AvailableLine "string list"
  | ListLine path bool int int
  | ListTotal nat nat
  | ExportedLine string
  | DryRunLine path
  | WouldGenerateLine nat
  | NoApiKeyLine
  | BannerLine
  | CategoryLine string nat
  | SkipLine path
  | GeneratingLine path
  | OkLine path nat
  | WarnNoImageLine path
  | ErrorLine path
  | RetryingLine int int
  | PostLine int int
  | WarnNoPilLine
  | SummaryLine nat nat nat nat
  | FailedHintLine nat

datatype event =
    Print line
  | ApiCall string
  | WriteFile path "byte list"
  | SaveImage path image
  | WriteSpec string path spec
  | RetrySleep nat
  | PaceSleep pyfloat

record world =
  files :: "path \<rightharpoonup> content"
  n_calls :: nat
  trace :: "event list"

definition emit :: "event list \<Rightarrow> world \<Rightarrow> world" where
  "emit es w = w\<lparr>trace := trace w @ es\<rparr>"

text \<open>
  What one call of \<^verbatim>\<open>client.models.generate_content\<close> leads to inside the \<^verbatim>\<open>try\<close>
  block of \<^verbatim>\<open>generate_image\<close>: an exception (of the call, or of reading
  \<^verbatim>\<open>response.candidates[0].content.parts\<close>), a response none of whose parts has
  \<^verbatim>\<open>inline_data\<close>, or the data of the first part that has it.
\<close>

datatype response = Raises | NoImage | Payload "byte list"

text \<open>
  The collaborators. \<open>service e n prompt\<close> is the outcome of the \<open>n\<close>-th API call of
  the process; \<open>decode\<close> is \<^verbatim>\<open>Image.open(...).convert("RGBA")\<close> on raw bytes (\<open>None\<close>:
  Pillow cannot identify the image); \<open>lanczos e img size x y\<close> is the pixel at column
  \<open>x\<close>, row \<open>y\<close> of \<open>img\<close> resampled to \<open>size\<close>; \<open>resize_error\<close> is the exception, if
  any, that the resampling itself raises for a size Pillow accepts (out of memory);
  \<open>pil_available\<close> says whether \<^verbatim>\<open>PIL\<close> and \<^verbatim>\<open>numpy\<close> can be imported; \<open>api_key\<close> is
  the module level \<^verbatim>\<open>API_KEY\<close>; \<open>client_error\<close> is the exception, if any, of importing
  \<^verbatim>\<open>google.genai\<close> (with its \<^verbatim>\<open>types\<close>) and building the client; \<open>sleep_error d\<close> is the exception, if any,
  that \<^verbatim>\<open>time.sleep(d)\<close> raises; \<open>mkdir_error dir sub\<close> is the exception, if any, of
  creating the export directory \<open>dir\<close> (\<open>sub = None\<close>) or its subdirectory \<open>sub\<close>;
  \<open>dump_error dir sub filepath\<close> is the exception, if any, of writing the JSON file of
  the asset \<open>filepath\<close> into that subdirectory.
\<close>

record env =
  api_key :: "string option"
  pil_available :: bool
  decode :: "byte list \<Rightarrow> image option"
  lanczos :: "image \<Rightarrow> int \<times> int \<Rightarrow> nat \<Rightarrow> nat \<Rightarrow> pixel"
  resize_error :: "image \<Rightarrow> int \<times> int \<Rightarrow> py_exception option"
  service :: "nat \<Rightarrow> string \<Rightarrow> response"
  client_error :: "py_exception option"
  sleep_error :: "pyfloat \<Rightarrow> py_exception option"
  mkdir_error :: "string \<Rightarrow> string option \<Rightarrow> py_exception option"
  dump_error :: "string \<Rightarrow> string \<Rightarrow> path \<Rightarrow> py_exception option"

subsection \<open>generate\_image: the retry loop\<close>

text \<open>
  The body of \<^verbatim>\<open>for attempt in range(retries + 1)\<close>, over the attempts still to
  make. Writing the file is taken to succeed.
\<close>

fun attempts :: "env \<Rightarrow> string \<Rightarrow> path \<Rightarrow> int \<Rightarrow> int list \<Rightarrow> world \<Rightarrow> bool \<times> world" where
  "attempts e prompt output_path retries [] w = (False, w)"
| "attempts e prompt output_path retries (attempt # rest) w =
     (let w1 = w\<lparr>n_calls := Suc (n_calls w), trace := trace w @ [ApiCall prompt]\<rparr> in
      case service e (n_calls w) prompt of
        Payload image_data \<Rightarrow>
          (True, w1\<lparr>files := (files w1)(output_path \<mapsto> Raw image_data),
                    trace := trace w1 @ [WriteFile output_path image_data,
                                         Print (OkLine output_path (length image_data))]\<rparr>)
      | NoImage \<Rightarrow>
          attempts e prompt output_path retries rest
            (emit (Print (WarnNoImageLine output_path) #
                   (if attempt < retries
                    then [Print (RetryingLine (attempt + 1) retries), RetrySleep 2] else [])) w1)
      | Raises \<Rightarrow>
          attempts e prompt output_path retries rest
            (emit (Print (ErrorLine output_path) #
                   (if attempt < retries
                    then [Print (RetryingLine (attempt + 1) retries), RetrySleep 3] else [])) w1))"

definition generate_image :: "env \<Rightarrow> string \<Rightarrow> path \<Rightarrow> int \<Rightarrow> world \<Rightarrow> bool \<times> world" where
  "generate_image e prompt output_path retries w =
     attempts e prompt output_path retries [0..retries] w"

subsection \<open>post\_process\<close>

definition decode_content :: "env \<Rightarrow> content \<Rightarrow> image option" where
  "decode_content e c = (case c of Png img \<Rightarrow> Some img | Raw bs \<Rightarrow> decode e bs)"

text \<open>
  \<^verbatim>\<open>img.resize(size, Image.Resampling.LANCZOS)\<close>. The two components of the size are
  converted to C ints (\<^verbatim>\<open>OverflowError\<close> outside the 32-bit range); Pillow then raises
  \<^verbatim>\<open>ValueError\<close> ("height and width must be > 0") for a component below 1; the
  resampling may fail on its own (\<open>resize_error\<close>); otherwise the result is an image of
  the requested size, its pixels computed by the filter.
\<close>

definition resize :: "env \<Rightarrow> image \<Rightarrow> int \<times> int \<Rightarrow> py_exception + image" where
  "resize e img sz =
     (if \<not> (- (2 ^ 31) \<le> fst sz \<and> fst sz < 2 ^ 31 \<and> - (2 ^ 31) \<le> snd sz \<and> snd sz < 2 ^ 31)
      then Inl OverflowError
      else if fst sz < 1 \<or> snd sz < 1 then Inl ValueError
      else case resize_error e img sz of
             Some x \<Rightarrow> Inl x
           | None \<Rightarrow> Inr (new_image (nat (fst sz)) (nat (snd sz)) (lanczos e img sz)))"

text \<open>
  The result is the exception that leaves the function, if any, and the world.
  \<^verbatim>\<open>ImportError\<close> is the one exception the function catches. Saving the result is taken
  to succeed.
\<close>

definition post_process :: "env \<Rightarrow> path \<Rightarrow> int \<Rightarrow> int \<Rightarrow> world \<Rightarrow> py_exception option \<times> world" where
  "post_process e image_path target_width target_height w =
     (if \<not> pil_available e then (None, emit [Print WarnNoPilLine] w)
      else case files w image_path of
        None \<Rightarrow> (Some FileNotFoundError, w)
      | Some c \<Rightarrow>
         (case decode_content e c of
            None \<Rightarrow> (Some UnidentifiedImageError, w)
          | Some img \<Rightarrow>
             (case (if (int (img_width img), int (img_height img)) \<noteq> (target_width, target_height)
                    then resize e img (target_width, target_height) else Inr img) of
                Inl x \<Rightarrow> (Some x, w)
              | Inr img1 \<Rightarrow>
                 (let result = clean_background img1 in
                  (None, w\<lparr>files := (files w)(image_path \<mapsto> Png result),
                            trace := trace w @ [SaveImage image_path result,
                                                Print (PostLine target_width target_height)]\<rparr>)))))"

text \<open>\<^verbatim>\<open>generate-new-tiles.py\<close>: always resized to 128 by 128.\<close>

definition tiles_post_process :: "env \<Rightarrow> path \<Rightarrow> world \<Rightarrow> py_exception option \<times> world" where
  "tiles_post_process e image_path w =
     (if \<not> pil_available e then (None, emit [Print WarnNoPilLine] w)
      else case files w image_path of
        None \<Rightarrow> (Some FileNotFoundError, w)
      | Some c \<Rightarrow>
         (case decode_content e c of
            None \<Rightarrow> (Some UnidentifiedImageError, w)
          | Some img \<Rightarrow>
             (case resize e img (128, 128) of
                Inl x \<Rightarrow> (Some x, w)
              | Inr img1 \<Rightarrow>
                 (let result = tiles_clean_background img1 in
                  (None, w\<lparr>files := (files w)(image_path \<mapsto> Png result),
                            trace := trace w @ [SaveImage image_path result,
                                                Print (PostLine 128 128)]\<rparr>)))))"

subsection \<open>The command line and the orchestrator\<close>

record args =
  list_flag :: bool
  category :: "string option"
  force :: bool
  dry_run :: bool
  no_post :: bool
  export_specs_dir :: "string option"
  delay :: pyfloat

record counters =
  generated :: nat
  skipped :: nat
  failed :: nat
  processed :: nat

text \<open>
  \<^verbatim>\<open>ALL_CATEGORIES\<close>, a dictionary in declaration order (its keys are distinct). The
  functions below take it as an argument.
\<close>

type_synonym catalog = "(string \<times> (path \<times> spec) list) list"

text \<open>Python's truth value of an optional string: \<^verbatim>\<open>None\<close> and \<^verbatim>\<open>""\<close> are false.\<close>

definition truthy :: "string option \<Rightarrow> bool" where
  "truthy s = (case s of None \<Rightarrow> False | Some v \<Rightarrow> v \<noteq> [])"

text \<open>The category filter; \<open>None\<close> stands for the branch that ends in \<^verbatim>\<open>sys.exit(1)\<close>.\<close>

definition select_categories :: "catalog \<Rightarrow> args \<Rightarrow> catalog option" where
  "select_categories ALL_CATEGORIES a =
     (if truthy (category a)
      then (case map_of ALL_CATEGORIES (the (category a)) of
              None \<Rightarrow> None
            | Some assets \<Rightarrow> Some [(the (category a), assets)])
      else Some ALL_CATEGORIES)"

definition output_exists :: "world \<Rightarrow> path \<Rightarrow> bool" where
  "output_exists w filepath \<longleftrightarrow> files w filepath \<noteq> None"

definition list_assets :: "catalog \<Rightarrow> world \<Rightarrow> world" where
  "list_assets categories w =
     (let all = concat (map snd categories);
          existing = length (filter (\<lambda>r. output_exists w (fst r)) all)
      in emit (concat (map (\<lambda>(cat_name, assets).
                 Print (CategoryLine cat_name (length assets)) #
                 map (\<lambda>(filepath, sp).
                        Print (ListLine filepath (output_exists w filepath)
                                 (width_px sp) (height_px sp))) assets) categories)
               @ [Print (ListTotal (length all) existing)]) w)"

text \<open>
  \<^verbatim>\<open>export_specs\<close> creates the export directory and one subdirectory per category, and
  writes one JSON file per asset, all outside the asset directory: the files of the
  world stay as they are. Nothing catches an exception of \<^verbatim>\<open>mkdir\<close>, \<^verbatim>\<open>open\<close> or
  \<^verbatim>\<open>json.dump\<close>; the result is the exception that leaves the function, if any.
\<close>

fun export_assets ::
    "env \<Rightarrow> string \<Rightarrow> string \<Rightarrow> (path \<times> spec) list \<Rightarrow> world \<Rightarrow> py_exception option \<times> world" where
  "export_assets e output_dir cat_name [] w = (None, w)"
| "export_assets e output_dir cat_name ((filepath, sp) # rest) w =
     (case dump_error e output_dir cat_name filepath of
        Some x \<Rightarrow> (Some x, w)
      | None \<Rightarrow> export_assets e output_dir cat_name rest
                  (emit [WriteSpec cat_name filepath sp] w))"

fun export_categories ::
    "env \<Rightarrow> string \<Rightarrow> catalog \<Rightarrow> world \<Rightarrow> py_exception option \<times> world" where
  "export_categories e output_dir [] w = (None, w)"
| "export_categories e output_dir ((cat_name, assets) # rest) w =
     (case mkdir_error e output_dir (Some cat_name) of
        Some x \<Rightarrow> (Some x, w)
      | None \<Rightarrow>
         (case export_assets e output_dir cat_name assets w of
            (Some x, w1) \<Rightarrow> (Some x, w1)
          | (None, w1) \<Rightarrow> export_categories e output_dir rest w1))"

definition export_specs :: "env \<Rightarrow> catalog \<Rightarrow> string \<Rightarrow> world \<Rightarrow> py_exception option \<times> world" where
  "export_specs e categories output_dir w =
     (case mkdir_error e output_dir None of
        Some x \<Rightarrow> (Some x, w)
      | None \<Rightarrow>
         (case export_categories e output_dir categories w of
            (Some x, w1) \<Rightarrow> (Some x, w1)
          | (None, w1) \<Rightarrow> (None, emit [Print (ExportedLine output_dir)] w1)))"

definition would_generate :: "args \<Rightarrow> world \<Rightarrow> catalog \<Rightarrow> path list" where
  "would_generate a w categories =
     map fst (filter (\<lambda>r. \<not> (output_exists w (fst r) \<and> \<not> force a))
                (concat (map snd categories)))"

definition dry_run_report :: "args \<Rightarrow> catalog \<Rightarrow> world \<Rightarrow> world" where
  "dry_run_report a categories w =
     emit (map (\<lambda>filepath. Print (DryRunLine filepath)) (would_generate a w categories)
           @ [Print (WouldGenerateLine (length (would_generate a w categories)))]) w"

text \<open>
  The body of \<^verbatim>\<open>for filepath, spec in assets\<close>. An exception of \<^verbatim>\<open>post_process\<close> or
  of \<^verbatim>\<open>time.sleep\<close> is caught nowhere and ends the loop.
\<close>

definition process_record ::
    "env \<Rightarrow> args \<Rightarrow> path \<times> spec \<Rightarrow> world \<times> counters \<Rightarrow> py_exception option \<times> world \<times> counters" where
  "process_record e a r st =
     (let filepath = fst r; sp = snd r; w = fst st;
          c1 = (snd st)\<lparr>processed := processed (snd st) + 1\<rparr>
      in if output_exists w filepath \<and> \<not> force a
         then (None, emit [Print (SkipLine filepath)] w, c1\<lparr>skipped := skipped c1 + 1\<rparr>)
         else
           (let w1 = emit [Print (GeneratingLine filepath)] w;
                prompt = build_prompt sp;
                g = generate_image e prompt filepath 2 w1
            in if fst g
               then
                 (let c2 = c1\<lparr>generated := generated c1 + 1\<rparr>;
                      pp = (if \<not> no_post a
                            then post_process e filepath (width_px sp) (height_px sp) (snd g)
                            else (None, snd g))
                  in case fst pp of
                       Some x \<Rightarrow> (Some x, snd pp, c2)
                     | None \<Rightarrow>
                        (case sleep_error e (delay a) of
                           Some x \<Rightarrow> (Some x, snd pp, c2)
                         | None \<Rightarrow> (None, emit [PaceSleep (delay a)] (snd pp), c2)))
               else (None, snd g, c1\<lparr>failed := failed c1 + 1\<rparr>)))"

fun run_assets ::
    "env \<Rightarrow> args \<Rightarrow> (path \<times> spec) list \<Rightarrow> world \<times> counters \<Rightarrow> py_exception option \<times> world \<times> counters" where
  "run_assets e a [] st = (None, fst st, snd st)"
| "run_assets e a (r # rs) st =
     (case process_record e a r st of
        (Some x, w, c) \<Rightarrow> (Some x, w, c)
      | (None, w, c) \<Rightarrow> run_assets e a rs (w, c))"

fun run_categories ::
    "env \<Rightarrow> args \<Rightarrow> catalog \<Rightarrow> world \<times> counters \<Rightarrow> py_exception option \<times> world \<times> counters" where
  "run_categories e a [] st = (None, fst st, snd st)"
| "run_categories e a ((cat_name, assets) # rest) st =
     (case run_assets e a assets
             (emit [Print (CategoryLine cat_name (length assets))] (fst st), snd st) of
        (Some x, w, c) \<Rightarrow> (Some x, w, c)
      | (None, w, c) \<Rightarrow> run_categories e a rest (w, c))"

text \<open>
  How the process ends: \<open>Exit n\<close> is \<^verbatim>\<open>sys.exit(n)\<close>, with \<open>Exit 0\<close> for a return
  from \<^verbatim>\<open>main\<close>; \<open>Traceback\<close> is an uncaught exception, which the interpreter turns
  into exit status 1.
\<close>

datatype exit = Exit int | Traceback py_exception

definition exit_status :: "exit \<Rightarrow> int" where
  "exit_status x = (case x of Exit n \<Rightarrow> n | Traceback _ \<Rightarrow> 1)"

definition zero_counters :: counters where
  "zero_counters = \<lparr> generated = 0, skipped = 0, failed = 0, processed = 0 \<rparr>"

definition summary :: "nat \<Rightarrow> counters \<Rightarrow> event list" where
  "summary total_assets c =
     Print (SummaryLine (generated c) (skipped c) (failed c) total_assets) #
     (if failed c > 0 then [Print (FailedHintLine (failed c))] else [])"

text \<open>
  \<^verbatim>\<open>main\<close>, after argument parsing. Nothing in it catches an exception. Printing and
  the existence tests of the file system are taken to answer.
\<close>

definition main :: "catalog \<Rightarrow> env \<Rightarrow> args \<Rightarrow> world \<Rightarrow> exit \<times> world" where
  "main ALL_CATEGORIES e a w =
     (case select_categories ALL_CATEGORIES a of
        None \<Rightarrow>
          (Exit 1, emit [Print (UnknownCategoryLine (the (category a))),
                         Print (AvailableLine (map fst ALL_CATEGORIES))] w)
      | Some categories \<Rightarrow>
          if list_flag a then (Exit 0, list_assets categories w)
          else if truthy (export_specs_dir a)
          then (case export_specs e categories (the (export_specs_dir a)) w of
                  (Some x, w1) \<Rightarrow> (Traceback x, w1)
                | (None, w1) \<Rightarrow> (Exit 0, w1))
          else if dry_run a then (Exit 0, dry_run_report a categories w)
          else if \<not> truthy (api_key e) then (Exit 1, emit [Print NoApiKeyLine] w)
          else if client_error e \<noteq> None then (Traceback (the (client_error e)), w)
          else
            (let total_assets = length (concat (map snd categories));
                 res = run_categories e a categories (emit [Print BannerLine] w, zero_counters)
             in case res of
                  (Some x, w1, c) \<Rightarrow> (Traceback x, w1)
                | (None, w1, c) \<Rightarrow> (Exit 0, emit (summary total_assets c) w1)))"

subsection \<open>Observations used in the statements\<close>

definition rgb :: "pixel \<Rightarrow> byte \<times> byte \<times> byte" where
  "rgb p = (red p, green p, blue p)"

text \<open>
  For the retry loop: whether a response makes the attempt fail, the pause the loop
  takes after a failed attempt that is not the last, the world after a failed attempt,
  the pauses recorded in a trace, and a service whose responses without image are
  replaced by exceptions.
\<close>

definition is_failure :: "response \<Rightarrow> bool" where
  "is_failure r = (case r of Payload _ \<Rightarrow> False | _ \<Rightarrow> True)"

definition wait_after :: "response \<Rightarrow> nat" where
  "wait_after r = (case r of NoImage \<Rightarrow> 2 | _ \<Rightarrow> 3)"

definition failed_attempt :: "response \<Rightarrow> string \<Rightarrow> path \<Rightarrow> int \<Rightarrow> int \<Rightarrow> world \<Rightarrow> world" where
  "failed_attempt r prompt output_path retries attempt w =
     emit (Print (case r of NoImage \<Rightarrow> WarnNoImageLine output_path | _ \<Rightarrow> ErrorLine output_path) #
           (if attempt < retries
            then [Print (RetryingLine (attempt + 1) retries), RetrySleep (wait_after r)] else []))
       (w\<lparr>n_calls := Suc (n_calls w), trace := trace w @ [ApiCall prompt]\<rparr>)"

definition retry_waits :: "event list \<Rightarrow> nat list" where
  "retry_waits es = concat (map (\<lambda>ev. case ev of RetrySleep n \<Rightarrow> [n] | _ \<Rightarrow> []) es)"

definition as_error :: "response \<Rightarrow> response" where
  "as_error r = (case r of NoImage \<Rightarrow> Raises | _ \<Rightarrow> r)"

text \<open>
  For the orchestrator: the pacing sleeps recorded in a trace; whether an event is about
  the file at a path; a step that leaves that file alone (\<open>quiet\<close>); a step that removes
  no file and adds no pacing sleep (\<open>grows\<close>); a step that removes no file (\<open>keeps\<close>);
  what a run prints when it skips every asset; the assets of a catalog in order.
\<close>

definition pace_sleeps :: "event list \<Rightarrow> pyfloat list" where
  "pace_sleeps es = concat (map (\<lambda>ev. case ev of PaceSleep d \<Rightarrow> [d] | _ \<Rightarrow> []) es)"

definition concerns :: "path \<Rightarrow> event \<Rightarrow> bool" where
  "concerns p ev =
     (case ev of
        WriteFile q _ \<Rightarrow> q = p
      | SaveImage q _ \<Rightarrow> q = p
      | Print l \<Rightarrow> (case l of GeneratingLine q \<Rightarrow> q = p | OkLine q _ \<Rightarrow> q = p | _ \<Rightarrow> False)
      | _ \<Rightarrow> False)"

definition quiet :: "path \<Rightarrow> world \<Rightarrow> world \<Rightarrow> bool" where
  "quiet p w w' \<longleftrightarrow> files w' p = files w p \<and>
     (\<exists>es. trace w' = trace w @ es \<and> (\<forall>ev \<in> set es. \<not> concerns p ev))"

definition grows :: "world \<Rightarrow> world \<Rightarrow> bool" where
  "grows w w' \<longleftrightarrow> (\<forall>q. files w q \<noteq> None \<longrightarrow> files w' q \<noteq> None) \<and>
     (\<exists>es. trace w' = trace w @ es \<and> pace_sleeps es = [])"

definition keeps :: "world \<Rightarrow> world \<Rightarrow> bool" where
  "keeps w w' \<longleftrightarrow> (\<forall>q. files w q \<noteq> None \<longrightarrow> files w' q \<noteq> None)"

definition skip_report :: "catalog \<Rightarrow> event list" where
  "skip_report categories =
     concat (map (\<lambda>(cat_name, assets).
       Print (CategoryLine cat_name (length assets)) #
       map (\<lambda>r. Print (SkipLine (fst r))) assets) categories)"

definition all_assets :: "catalog \<Rightarrow> (path \<times> spec) list" where
  "all_assets categories = concat (map snd categories)"

subsection \<open>Example inputs\<close>

text \<open>
  A small catalog (the first entry of \<^verbatim>\<open>TERRAIN_TILES\<close>), and collaborators to run it
  with: a decoder that reads one PNG file, nearest neighbour sampling in place of the
  Lanczos filter, a sleep, and services that return that file, fail, or return bytes
  that are no image.
\<close>

definition TILE_STYLE :: string where
  "TILE_STYLE = ''isometric diamond-shaped terrain tile, top-down 2:1 ratio, '' @
     ''3D block with visible top face and two darker side faces for depth''"

definition grass_spec :: spec where
  "grass_spec = make_spec ''Grass Plains''
     (''Lush green grassland tile with small grass blade details and subtle ground texture. '' @
      ''Vibrant spring green color.'')
     (48, 48) ''terrain'' TILE_STYLE"

definition demo_catalog :: catalog where
  "demo_catalog = [(''tiles'', [(''tiles/grass_plains.png'', grass_spec)])]"

text \<open>The bytes of a PNG file holding one white, opaque RGBA pixel.\<close>

definition tiny_png :: "byte list" where
  "tiny_png =
     [137, 80, 78, 71, 13, 10, 26, 10, 0, 0, 0, 13, 73, 72, 68, 82, 0, 0, 0, 1, 0, 0, 0, 1,
      8, 6, 0, 0, 0, 31, 21, 196, 137, 0, 0, 0, 11, 73, 68, 65, 84, 120, 156, 99, 248, 15,
      4, 0, 9, 251, 3, 253, 251, 94, 107, 43, 0, 0, 0, 0, 73, 69, 78, 68, 174, 66, 96, 130]"

definition one_pixel_image :: image where
  "one_pixel_image = new_image 1 1 (\<lambda>x y. \<lparr>red = 255, green = 255, blue = 255, alpha = 255\<rparr>)"

definition demo_decode :: "byte list \<Rightarrow> image option" where
  "demo_decode bs = (if bs = tiny_png then Some one_pixel_image else None)"

definition nearest :: "image \<Rightarrow> int \<times> int \<Rightarrow> nat \<Rightarrow> nat \<Rightarrow> pixel" where
  "nearest img sz x y =
     pixels img ! (y * img_height img div nat (snd sz)) ! (x * img_width img div nat (fst sz))"

text \<open>
  \<^verbatim>\<open>time.sleep\<close> of CPython with a 64-bit nanosecond clock: \<^verbatim>\<open>ValueError\<close> for NaN and
  for a negative length, \<^verbatim>\<open>OverflowError\<close> for a length that does not fit the clock.
\<close>

definition demo_sleep :: "pyfloat \<Rightarrow> py_exception option" where
  "demo_sleep d =
     (case d of
        NaN \<Rightarrow> Some ValueError
      | PosInf \<Rightarrow> Some OverflowError
      | NegInf \<Rightarrow> Some OverflowError
      | Finite r \<Rightarrow>
          if r * 1000000000 < - (2 ^ 63) \<or> 2 ^ 63 \<le> r * 1000000000 then Some OverflowError
          else if r < 0 then Some ValueError
          else None)"

definition demo_env :: env where
  "demo_env =
     \<lparr> api_key = Some ''secret'', pil_available = True, decode = demo_decode,
       lanczos = nearest, resize_error = (\<lambda>img sz. None),
       service = (\<lambda>n prompt. Payload tiny_png),
       client_error = None, sleep_error = demo_sleep,
       mkdir_error = (\<lambda>dir sub. None), dump_error = (\<lambda>dir sub filepath. None) \<rparr>"

definition flaky_env :: env where
  "flaky_env = demo_env\<lparr>service := (\<lambda>n prompt. if n < 2 then Raises else Payload tiny_png)\<rparr>"

definition failing_env :: env where
  "failing_env = demo_env\<lparr>service := (\<lambda>n prompt. Raises)\<rparr>"

definition empty_world :: world where
  "empty_world = \<lparr> files = Map.empty, n_calls = 0, trace = [] \<rparr>"

definition raw_world :: world where
  "raw_world = empty_world\<lparr>files := [''tiles/grass_plains.png'' \<mapsto> Raw tiny_png]\<rparr>"

definition bad_spec :: spec where
  "bad_spec = make_spec ''Void'' '''' (0, - 1) ''terrain'' TILE_STYLE"

definition bad_catalog :: catalog where
  "bad_catalog = [(''tiles'', [(''tiles/void.png'', bad_spec)])]"

text \<open>A service whose payload is the first four bytes of a PNG file, which no decoder accepts.\<close>

definition garbled_env :: env where
  "garbled_env = demo_env\<lparr>service := (\<lambda>n prompt. Payload [137, 80, 78, 71])\<rparr>"

definition default_args :: args where
  "default_args =
     \<lparr> list_flag = False, category = None, force = False, dry_run = False,
       no_post = False, export_specs_dir = None, delay = Finite 1 \<rparr>"

section \<open>Properties\<close>

subsection \<open>Images\<close>

lemma image_shape:
  "length (pixels img) = img_height img \<and> (\<forall>row \<in> set (pixels img). length row = img_width img)"
  by transfer (simp add: well_shaped_def)

lemma new_image_simps [simp]:
  "img_width (new_image w h f) = w"
  "img_height (new_image w h f) = h"
  "pixels (new_image w h f) = map (\<lambda>y. map (\<lambda>x. f x y) [0..<w]) [0..<h]"
  by (transfer, simp)+

lemma map_pixels_simps [simp]:
  "img_width (map_pixels f img) = img_width img"
  "img_height (map_pixels f img) = img_height img"
  "pixels (map_pixels f img) = map (map f) (pixels img)"
  by (transfer, simp)+

subsection \<open>The alpha rule\<close>

lemma unat_scale_alpha: "unat (scale_alpha a) = unat a * 3 div 10"
proof -
  have "unat a < 2 ^ LENGTH(8)" by (rule unsigned_less)
  then have "unat a * 3 div 10 < 256" by simp
  then show ?thesis unfolding scale_alpha_def by (simp add: unat_of_nat)
qed

lemma scale_alpha_le: "scale_alpha a \<le> a"
  by (simp add: word_le_nat_alt unat_scale_alpha)

lemma scale_alpha_less: "0 < a \<Longrightarrow> scale_alpha a < a"
proof -
  assume "0 < a"
  then have "0 < unat a" by (simp add: word_greater_zero_iff unat_gt_0)
  then have "unat a * 3 div 10 < unat a" by arith
  then show ?thesis by (simp add: word_less_nat_alt unat_scale_alpha)
qed

lemma scale_alpha_nonzero: "4 \<le> a \<Longrightarrow> scale_alpha a \<noteq> 0"
proof -
  assume "4 \<le> a"
  then have "4 \<le> unat a" by (simp add: word_le_nat_alt)
  then have "unat (scale_alpha a) \<noteq> 0" by (simp add: unat_scale_alpha)
  then show ?thesis by (auto simp: unat_eq_0)
qed

lemma clean_pixel_white: "white_mask p \<Longrightarrow> clean_pixel p = p\<lparr>alpha := 0\<rparr>"
  by (simp add: clean_pixel_def near_white_def)

lemma clean_pixel_near_white:
  "near_white p \<Longrightarrow> clean_pixel p = p\<lparr>alpha := scale_alpha (alpha p)\<rparr>"
  by (simp add: clean_pixel_def near_white_def)

lemma clean_pixel_other: "\<not> white_mask p \<Longrightarrow> \<not> near_white p \<Longrightarrow> clean_pixel p = p"
  by (simp add: clean_pixel_def)

text \<open>
  C3, as the code has it. In \<^verbatim>\<open>generate-world-assets.py\<close> a pixel whose three colour
  channels exceed 240 gets alpha 0; a pixel whose channels exceed 220 without all
  exceeding 240 gets alpha \<open>\<lfloor>0.3 a\<rfloor>\<close> for its alpha \<open>a\<close>, which is never larger than
  \<open>a\<close>, is smaller when \<open>a > 0\<close> and is not zero when \<open>a \<ge> 4\<close>; every other pixel is
  unchanged. In \<^verbatim>\<open>generate-new-tiles.py\<close> the thresholds are 230 and 200 and a
  near-white pixel gets alpha 100, whatever its alpha was.
\<close>

theorem alpha_rule:
  "(white_mask p \<longrightarrow> clean_pixel p = p\<lparr>alpha := 0\<rparr>) \<and>
   (near_white p \<longrightarrow>
      clean_pixel p = p\<lparr>alpha := scale_alpha (alpha p)\<rparr> \<and>
      unat (alpha (clean_pixel p)) = unat (alpha p) * 3 div 10 \<and>
      alpha (clean_pixel p) \<le> alpha p \<and>
      (0 < alpha p \<longrightarrow> alpha (clean_pixel p) < alpha p) \<and>
      (4 \<le> alpha p \<longrightarrow> alpha (clean_pixel p) \<noteq> 0)) \<and>
   (\<not> white_mask p \<and> \<not> near_white p \<longrightarrow> clean_pixel p = p) \<and>
   (tiles_white_mask p \<longrightarrow> tiles_clean_pixel p = p\<lparr>alpha := 0\<rparr>) \<and>
   (tiles_near_white p \<longrightarrow> tiles_clean_pixel p = p\<lparr>alpha := 100\<rparr>) \<and>
   (\<not> tiles_white_mask p \<and> \<not> tiles_near_white p \<longrightarrow> tiles_clean_pixel p = p)"
proof -
  have a: "white_mask p \<longrightarrow> clean_pixel p = p\<lparr>alpha := 0\<rparr>"
    by (simp add: clean_pixel_white)
  have b: "near_white p \<longrightarrow>
      clean_pixel p = p\<lparr>alpha := scale_alpha (alpha p)\<rparr> \<and>
      unat (alpha (clean_pixel p)) = unat (alpha p) * 3 div 10 \<and>
      alpha (clean_pixel p) \<le> alpha p \<and>
      (0 < alpha p \<longrightarrow> alpha (clean_pixel p) < alpha p) \<and>
      (4 \<le> alpha p \<longrightarrow> alpha (clean_pixel p) \<noteq> 0)"
    by (simp add: clean_pixel_near_white unat_scale_alpha scale_alpha_le scale_alpha_less
        scale_alpha_nonzero)
  have c: "\<not> white_mask p \<and> \<not> near_white p \<longrightarrow> clean_pixel p = p"
    by (simp add: clean_pixel_other)
  have d: "tiles_white_mask p \<longrightarrow> tiles_clean_pixel p = p\<lparr>alpha := 0\<rparr>"
    by (simp add: tiles_clean_pixel_def tiles_near_white_def)
  have e: "tiles_near_white p \<longrightarrow> tiles_clean_pixel p = p\<lparr>alpha := 100\<rparr>"
    by (simp add: tiles_clean_pixel_def tiles_near_white_def)
  have f: "\<not> tiles_white_mask p \<and> \<not> tiles_near_white p \<longrightarrow> tiles_clean_pixel p = p"
    by (simp add: tiles_clean_pixel_def)
  from a b c d e f show ?thesis by blast
qed

theorem alpha_rule_witness:
  "alpha (clean_pixel \<lparr>red = 255, green = 255, blue = 255, alpha = 255\<rparr>) = 0 \<and>
   alpha (clean_pixel \<lparr>red = 225, green = 225, blue = 225, alpha = 255\<rparr>) = 76 \<and>
   clean_pixel \<lparr>red = 0, green = 0, blue = 0, alpha = 255\<rparr>
     = \<lparr>red = 0, green = 0, blue = 0, alpha = 255\<rparr> \<and>
   alpha (tiles_clean_pixel \<lparr>red = 255, green = 255, blue = 255, alpha = 255\<rparr>) = 0 \<and>
   alpha (tiles_clean_pixel \<lparr>red = 225, green = 225, blue = 225, alpha = 255\<rparr>) = 100 \<and>
   tiles_clean_pixel \<lparr>red = 0, green = 0, blue = 0, alpha = 255\<rparr>
     = \<lparr>red = 0, green = 0, blue = 0, alpha = 255\<rparr>"
proof -
  have w: "white_mask \<lparr>red = 255, green = 255, blue = 255, alpha = 255\<rparr>"
    and tw: "tiles_white_mask \<lparr>red = 255, green = 255, blue = 255, alpha = 255\<rparr>"
    by (simp_all add: white_mask_def tiles_white_mask_def)
  have n: "near_white \<lparr>red = 225, green = 225, blue = 225, alpha = 255\<rparr>"
    and tn: "tiles_near_white \<lparr>red = 225, green = 225, blue = 225, alpha = 255\<rparr>"
    by (simp_all add: near_white_def white_mask_def tiles_near_white_def tiles_white_mask_def)
  have d: "\<not> white_mask \<lparr>red = 0, green = 0, blue = 0, alpha = 255\<rparr> \<and>
           \<not> near_white \<lparr>red = 0, green = 0, blue = 0, alpha = 255\<rparr>"
    and td: "\<not> tiles_white_mask \<lparr>red = 0, green = 0, blue = 0, alpha = 255\<rparr> \<and>
           \<not> tiles_near_white \<lparr>red = 0, green = 0, blue = 0, alpha = 255\<rparr>"
    by (simp_all add: near_white_def white_mask_def tiles_near_white_def tiles_white_mask_def)
  have s: "scale_alpha 255 = 76" by (simp add: scale_alpha_def)
  from w tw alpha_rule [of "\<lparr>red = 255, green = 255, blue = 255, alpha = 255\<rparr>"]
  have 1: "alpha (clean_pixel \<lparr>red = 255, green = 255, blue = 255, alpha = 255\<rparr>) = 0 \<and>
     alpha (tiles_clean_pixel \<lparr>red = 255, green = 255, blue = 255, alpha = 255\<rparr>) = 0"
    by simp
  from n tn s alpha_rule [of "\<lparr>red = 225, green = 225, blue = 225, alpha = 255\<rparr>"]
  have 2: "alpha (clean_pixel \<lparr>red = 225, green = 225, blue = 225, alpha = 255\<rparr>) = 76 \<and>
     alpha (tiles_clean_pixel \<lparr>red = 225, green = 225, blue = 225, alpha = 255\<rparr>) = 100"
    by simp
  from d td alpha_rule [of "\<lparr>red = 0, green = 0, blue = 0, alpha = 255\<rparr>"]
  have 3: "clean_pixel \<lparr>red = 0, green = 0, blue = 0, alpha = 255\<rparr>
       = \<lparr>red = 0, green = 0, blue = 0, alpha = 255\<rparr> \<and>
     tiles_clean_pixel \<lparr>red = 0, green = 0, blue = 0, alpha = 255\<rparr>
       = \<lparr>red = 0, green = 0, blue = 0, alpha = 255\<rparr>"
    by blast
  from 1 2 3 show ?thesis by blast
qed

text \<open>
  C3 as stated fails at the near-white colour (225, 225, 225): with alpha 2 the
  world-assets rule gives alpha 0, and with alpha 50 the new-tiles rule raises the alpha
  to 100.
\<close>

theorem alpha_rule_counterexample:
  "near_white \<lparr>red = 225, green = 225, blue = 225, alpha = 2\<rparr> \<and>
   alpha (clean_pixel \<lparr>red = 225, green = 225, blue = 225, alpha = 2\<rparr>) = 0 \<and>
   tiles_near_white \<lparr>red = 225, green = 225, blue = 225, alpha = 50\<rparr> \<and>
   alpha (tiles_clean_pixel \<lparr>red = 225, green = 225, blue = 225, alpha = 50\<rparr>) = 100"
  by (simp add: near_white_def white_mask_def clean_pixel_def scale_alpha_def
      tiles_near_white_def tiles_white_mask_def tiles_clean_pixel_def)

lemma rgb_clean_pixel: "rgb (clean_pixel p) = rgb p"
  by (simp add: rgb_def clean_pixel_def Let_def)

lemma rgb_tiles_clean_pixel: "rgb (tiles_clean_pixel p) = rgb p"
  by (simp add: rgb_def tiles_clean_pixel_def Let_def)

text \<open>
  C10: alpha correction writes the alpha channel only. At every pixel, and so over the
  whole array that is saved, the red, green and blue values are those of the (resized)
  image, in both post-processors; the shape of the array is kept as well.
\<close>

theorem alpha_correction_frame:
  "rgb (clean_pixel p) = rgb p \<and>
   rgb (tiles_clean_pixel p) = rgb p \<and>
   map (map rgb) (pixels (clean_background img)) = map (map rgb) (pixels img) \<and>
   map (map rgb) (pixels (tiles_clean_background img)) = map (map rgb) (pixels img) \<and>
   img_width (clean_background img) = img_width img \<and>
   img_height (clean_background img) = img_height img \<and>
   img_width (tiles_clean_background img) = img_width img \<and>
   img_height (tiles_clean_background img) = img_height img"
  by (simp add: clean_background_def tiles_clean_background_def rgb_clean_pixel
      rgb_tiles_clean_pixel comp_def)

subsection \<open>Prompt synthesis\<close>

lemma build_prompt_unfold:
  "build_prompt s =
     ''Generate a single game asset image. Art style: '' @ style_art_direction s @
     ''. Type: '' @ style_extra s @
     ''. Subject: '' @ meta_title s @
     ''. Description: '' @ style_description s @
     ''. Dimensions: '' @ str_int (width_px s) @ ''x'' @ str_int (height_px s) @
     '' pixels. Must have transparent background (PNG with alpha channel). '' @
     ''No text, no labels, no watermarks. Just the game asset sprite.''"
  by (simp add: build_prompt_def prompt_parts_def)

lemma sublist_mid: "ys = ps @ xs @ ss \<Longrightarrow> sublist xs ys"
  by (auto simp: sublist_def)

lemma str_int_examples:
  "str_int 48 = ''48''" "str_int 128 = ''128''" "str_int 0 = ''0''" "str_int (- 1) = ''-1''"
  by (simp_all add: str_int_def str_nat.simps digit_char_def)

lemma grass_prompt_dimensions: "sublist ''Dimensions: 48x48 pixels.'' (build_prompt grass_spec)"
  by (rule sublist_mid [where ps = "''Generate a single game asset image. Art style: '' @
        style_art_direction grass_spec @ ''. Type: '' @ style_extra grass_spec @
        ''. Subject: '' @ meta_title grass_spec @ ''. Description: '' @
        style_description grass_spec @ ''. ''"
      and ss = "'' Must have transparent background (PNG with alpha channel). '' @
        ''No text, no labels, no watermarks. Just the game asset sprite.''"])
    (simp add: build_prompt_unfold grass_spec_def make_spec_def str_int_examples)

text \<open>
  C9: \<open>build_prompt\<close> is a function of the spec alone (it reads neither the world nor
  the collaborators, so two calls on one spec give one string), and its result contains
  the title, the text \<open>WxH pixels\<close> with the two dimensions in decimal, and the sentence
  that requires a transparent background.
\<close>

theorem prompt_contents:
  "sublist (meta_title s) (build_prompt s) \<and>
   sublist (str_int (width_px s) @ ''x'' @ str_int (height_px s) @ '' pixels'')
     (build_prompt s) \<and>
   sublist ''Must have transparent background (PNG with alpha channel).'' (build_prompt s)"
proof -
  have 1: "sublist (meta_title s) (build_prompt s)"
    by (rule sublist_mid [where ps = "''Generate a single game asset image. Art style: '' @
          style_art_direction s @ ''. Type: '' @ style_extra s @ ''. Subject: ''"
        and ss = "''. Description: '' @ style_description s @
          ''. Dimensions: '' @ str_int (width_px s) @ ''x'' @ str_int (height_px s) @
          '' pixels. Must have transparent background (PNG with alpha channel). '' @
          ''No text, no labels, no watermarks. Just the game asset sprite.''"])
      (simp add: build_prompt_unfold)
  have 2: "sublist (str_int (width_px s) @ ''x'' @ str_int (height_px s) @ '' pixels'')
      (build_prompt s)"
    by (rule sublist_mid [where ps = "''Generate a single game asset image. Art style: '' @
          style_art_direction s @ ''. Type: '' @ style_extra s @ ''. Subject: '' @
          meta_title s @ ''. Description: '' @ style_description s @ ''. Dimensions: ''"
        and ss = "''. Must have transparent background (PNG with alpha channel). '' @
          ''No text, no labels, no watermarks. Just the game asset sprite.''"])
      (simp add: build_prompt_unfold)
  have 3: "sublist ''Must have transparent background (PNG with alpha channel).''
      (build_prompt s)"
    by (rule sublist_mid [where ps = "''Generate a single game asset image. Art style: '' @
          style_art_direction s @ ''. Type: '' @ style_extra s @ ''. Subject: '' @
          meta_title s @ ''. Description: '' @ style_description s @ ''. Dimensions: '' @
          str_int (width_px s) @ ''x'' @ str_int (height_px s) @ '' pixels. ''"
        and ss = "'' No text, no labels, no watermarks. Just the game asset sprite.''"])
      (simp add: build_prompt_unfold)
  from 1 2 3 show ?thesis by blast
qed

subsection \<open>Post-processing and the target dimensions\<close>

lemma resize_dims:
  "resize e img (tw, th) = Inr out \<Longrightarrow>
     int (img_width out) = tw \<and> int (img_height out) = th"
  by (auto simp: resize_def split: if_splits option.splits)

lemma resize_returns:
  "(\<exists>r. resize e img (tw, th) = Inr r) \<longleftrightarrow>
     1 \<le> tw \<and> tw < 2 ^ 31 \<and> 1 \<le> th \<and> th < 2 ^ 31 \<and> resize_error e img (tw, th) = None"
  by (auto simp: resize_def split: option.splits)

lemma dims_clean_background [simp]:
  "img_width (clean_background i) = img_width i"
  "img_height (clean_background i) = img_height i"
  "img_width (tiles_clean_background i) = img_width i"
  "img_height (tiles_clean_background i) = img_height i"
  by (simp_all add: clean_background_def tiles_clean_background_def)

lemma grid_of_size:
  "int (img_width out) = tw \<Longrightarrow> int (img_height out) = th \<Longrightarrow>
     int (length (pixels out)) = th \<and> (\<forall>row \<in> set (pixels out). int (length row) = tw)"
  using image_shape [of out] by auto

lemma post_process_dims:
  assumes "pil_available e" and "files w p = Some c" and "decode_content e c = Some img"
    and "post_process e p tw th w = (None, w')"
  shows "\<exists>out. files w' p = Some (Png out) \<and>
           int (img_width out) = tw \<and> int (img_height out) = th \<and>
           int (length (pixels out)) = th \<and> (\<forall>row \<in> set (pixels out). int (length row) = tw)"
proof (cases "(int (img_width img), int (img_height img)) = (tw, th)")
  case True
  with assms have f: "files w' p = Some (Png (clean_background img))"
    by (auto simp: post_process_def Let_def)
  from True have "int (img_width (clean_background img)) = tw"
    "int (img_height (clean_background img)) = th" by simp_all
  with f grid_of_size show ?thesis by blast
next
  case False
  with assms obtain r where r: "resize e img (tw, th) = Inr r"
    by (auto simp: post_process_def Let_def split: sum.splits)
  with assms False have f: "files w' p = Some (Png (clean_background r))"
    by (auto simp: post_process_def Let_def)
  from resize_dims [OF r] have "int (img_width (clean_background r)) = tw"
    "int (img_height (clean_background r)) = th" by simp_all
  with f grid_of_size show ?thesis by blast
qed

lemma post_process_returns:
  assumes "pil_available e" and "files w p = Some c" and "decode_content e c = Some img"
  shows "(\<exists>w'. post_process e p tw th w = (None, w')) \<longleftrightarrow>
     (int (img_width img), int (img_height img)) = (tw, th) \<or>
     (\<exists>r. resize e img (tw, th) = Inr r)"
  using assms by (auto simp: post_process_def Let_def split: sum.splits)

lemma tiles_post_process_dims:
  assumes "pil_available e" and "files w p = Some c" and "decode_content e c = Some img"
    and "tiles_post_process e p w = (None, w')"
  shows "\<exists>out. files w' p = Some (Png out) \<and> img_width out = 128 \<and> img_height out = 128 \<and>
           length (pixels out) = 128 \<and> (\<forall>row \<in> set (pixels out). length row = 128)"
proof -
  from assms obtain r where r: "resize e img (128, 128) = Inr r"
    by (auto simp: tiles_post_process_def Let_def split: sum.splits)
  with assms have f: "files w' p = Some (Png (tiles_clean_background r))"
    by (auto simp: tiles_post_process_def Let_def)
  from resize_dims [OF r] have d: "img_width (tiles_clean_background r) = 128"
    "img_height (tiles_clean_background r) = 128" by simp_all
  with image_shape [of "tiles_clean_background r"]
  have "length (pixels (tiles_clean_background r)) = 128 \<and>
      (\<forall>row \<in> set (pixels (tiles_clean_background r)). length row = 128)" by simp
  with f d show ?thesis by blast
qed

lemma tiles_post_process_returns:
  assumes "pil_available e" and "files w p = Some c" and "decode_content e c = Some img"
  shows "(\<exists>w'. tiles_post_process e p w = (None, w')) \<longleftrightarrow> resize_error e img (128, 128) = None"
  using assms by (auto simp: tiles_post_process_def Let_def resize_def split: option.splits)

text \<open>
  C5: with Pillow and numpy present and a file that decodes, whenever \<open>post_process\<close>
  returns, the image saved at the path is a grid of exactly the target height in rows
  and the target width in columns. It returns exactly when no resize is needed or the
  resize returns, and the resize returns exactly for a width and a height from 1 up to
  the largest C int for which the resampling itself raises nothing. The post-processor
  of \<^verbatim>\<open>generate-new-tiles.py\<close>, whose target is the fixed size 128 by 128, saves a grid
  of 128 rows of 128 pixels whenever it returns, and returns exactly when the
  resampling raises nothing.
\<close>

theorem post_process_dimensions:
  assumes "pil_available e" and "files w p = Some c" and "decode_content e c = Some img"
  shows "(\<forall>w'. post_process e p tw th w = (None, w') \<longrightarrow>
            (\<exists>out. files w' p = Some (Png out) \<and>
                   int (img_width out) = tw \<and> int (img_height out) = th \<and>
                   int (length (pixels out)) = th \<and>
                   (\<forall>row \<in> set (pixels out). int (length row) = tw))) \<and>
         ((\<exists>w'. post_process e p tw th w = (None, w')) \<longleftrightarrow>
            (int (img_width img), int (img_height img)) = (tw, th) \<or>
            (\<exists>r. resize e img (tw, th) = Inr r)) \<and>
         ((\<exists>r. resize e img (tw, th) = Inr r) \<longleftrightarrow>
            1 \<le> tw \<and> tw < 2 ^ 31 \<and> 1 \<le> th \<and> th < 2 ^ 31 \<and>
            resize_error e img (tw, th) = None) \<and>
         (\<forall>w'. tiles_post_process e p w = (None, w') \<longrightarrow>
            (\<exists>out. files w' p = Some (Png out) \<and>
                   img_width out = 128 \<and> img_height out = 128 \<and>
                   length (pixels out) = 128 \<and>
                   (\<forall>row \<in> set (pixels out). length row = 128))) \<and>
         ((\<exists>w'. tiles_post_process e p w = (None, w')) \<longleftrightarrow>
            resize_error e img (128, 128) = None)"
proof -
  have 1: "\<forall>w'. post_process e p tw th w = (None, w') \<longrightarrow>
            (\<exists>out. files w' p = Some (Png out) \<and>
                   int (img_width out) = tw \<and> int (img_height out) = th \<and>
                   int (length (pixels out)) = th \<and>
                   (\<forall>row \<in> set (pixels out). int (length row) = tw))"
    using post_process_dims [OF assms] by blast
  have 4: "\<forall>w'. tiles_post_process e p w = (None, w') \<longrightarrow>
            (\<exists>out. files w' p = Some (Png out) \<and>
                   img_width out = 128 \<and> img_height out = 128 \<and>
                   length (pixels out) = 128 \<and>
                   (\<forall>row \<in> set (pixels out). length row = 128))"
    using tiles_post_process_dims [OF assms] by blast
  from 1 4 post_process_returns [OF assms, of tw th] resize_returns [of e img tw th]
    tiles_post_process_returns [OF assms]
  show ?thesis by blast
qed

theorem post_process_dimensions_witness:
  "pil_available demo_env \<and>
   files raw_world ''tiles/grass_plains.png'' = Some (Raw tiny_png) \<and>
   decode_content demo_env (Raw tiny_png) = Some one_pixel_image \<and>
   (\<exists>w' out. post_process demo_env ''tiles/grass_plains.png'' 48 48 raw_world = (None, w') \<and>
      files w' ''tiles/grass_plains.png'' = Some (Png out) \<and>
      int (img_width out) = 48 \<and> int (img_height out) = 48 \<and>
      int (length (pixels out)) = 48 \<and> (\<forall>row \<in> set (pixels out). int (length row) = 48))"
proof -
  have h1: "pil_available demo_env" by (simp add: demo_env_def)
  have h2: "files raw_world ''tiles/grass_plains.png'' = Some (Raw tiny_png)"
    by (simp add: raw_world_def)
  have h3: "decode_content demo_env (Raw tiny_png) = Some one_pixel_image"
    by (simp add: decode_content_def demo_env_def demo_decode_def)
  have h4: "(1::int) \<le> 48 \<and> (48::int) < 2 ^ 31 \<and>
      resize_error demo_env one_pixel_image (48, 48) = None"
    by (simp add: demo_env_def)
  from h4 post_process_dimensions [OF h1 h2 h3, of 48 48]
  have "\<exists>w' out. post_process demo_env ''tiles/grass_plains.png'' 48 48 raw_world = (None, w') \<and>
      files w' ''tiles/grass_plains.png'' = Some (Png out) \<and>
      int (img_width out) = 48 \<and> int (img_height out) = 48 \<and>
      int (length (pixels out)) = 48 \<and> (\<forall>row \<in> set (pixels out). int (length row) = 48)"
    by blast
  with h1 h2 h3 show ?thesis by blast
qed

subsection \<open>The retry loop of generate\_image\<close>

lemma attempts_failure:
  "is_failure (service e (n_calls w) pr) \<Longrightarrow>
   attempts e pr p retries (a # rest) w =
     attempts e pr p retries rest (failed_attempt (service e (n_calls w) pr) pr p retries a w)"
  by (cases "service e (n_calls w) pr")
     (simp_all add: is_failure_def failed_attempt_def wait_after_def Let_def)

lemma attempts_payload:
  "service e (n_calls w) pr = Payload d \<Longrightarrow>
   attempts e pr p retries (a # rest) w =
     (True, w\<lparr>n_calls := Suc (n_calls w),
              files := (files w)(p \<mapsto> Raw d),
              trace := trace w @ [ApiCall pr, WriteFile p d, Print (OkLine p (length d))]\<rparr>)"
  by (simp add: Let_def)

declare attempts.simps(2) [simp del]

lemma failed_attempt_simps [simp]:
  "n_calls (failed_attempt r pr p retries a w) = Suc (n_calls w)"
  "files (failed_attempt r pr p retries a w) = files w"
  by (simp_all add: failed_attempt_def emit_def)

lemma retry_waits_append [simp]: "retry_waits (xs @ ys) = retry_waits xs @ retry_waits ys"
  by (simp add: retry_waits_def)

lemma retry_waits_failed_attempt:
  "retry_waits (trace (failed_attempt r pr p retries a w)) =
     retry_waits (trace w) @ (if a < retries then [wait_after r] else [])"
  by (simp add: failed_attempt_def emit_def retry_waits_def)

lemma attempts_all_fail:
  "(\<forall>i<length xs. is_failure (service e (n_calls w + i) pr)) \<Longrightarrow>
   fst (attempts e pr p retries xs w) = False \<and>
   n_calls (snd (attempts e pr p retries xs w)) = n_calls w + length xs \<and>
   files (snd (attempts e pr p retries xs w)) = files w"
proof (induction xs arbitrary: w)
  case Nil then show ?case by simp
next
  case (Cons a xs)
  from Cons.prems have f0: "is_failure (service e (n_calls w) pr)" by fastforce
  let ?w = "failed_attempt (service e (n_calls w) pr) pr p retries a w"
  have "\<forall>i<length xs. is_failure (service e (n_calls ?w + i) pr)"
    using Cons.prems by fastforce
  from Cons.IH [OF this] show ?case by (simp add: attempts_failure [OF f0])
qed

lemma attempts_first_success:
  "k < length xs \<Longrightarrow> (\<forall>i<k. is_failure (service e (n_calls w + i) pr)) \<Longrightarrow>
   service e (n_calls w + k) pr = Payload d \<Longrightarrow>
   fst (attempts e pr p retries xs w) = True \<and>
   n_calls (snd (attempts e pr p retries xs w)) = n_calls w + k + 1 \<and>
   files (snd (attempts e pr p retries xs w)) = (files w)(p \<mapsto> Raw d)"
proof (induction xs arbitrary: w k)
  case Nil then show ?case by simp
next
  case (Cons a xs)
  show ?case
  proof (cases k)
    case 0
    with Cons.prems have "service e (n_calls w) pr = Payload d" by simp
    then show ?thesis using 0 by (simp add: attempts_payload)
  next
    case (Suc j)
    with Cons.prems have f0: "is_failure (service e (n_calls w) pr)" by fastforce
    let ?w = "failed_attempt (service e (n_calls w) pr) pr p retries a w"
    have a: "j < length xs" using Cons.prems Suc by simp
    have b: "\<forall>i<j. is_failure (service e (n_calls ?w + i) pr)"
      using Cons.prems Suc by fastforce
    have c: "service e (n_calls ?w + j) pr = Payload d" using Cons.prems Suc by simp
    from Cons.IH [OF a b c] show ?thesis using Suc by (simp add: attempts_failure [OF f0])
  qed
qed

lemma attempts_calls_le:
  "n_calls (snd (attempts e pr p retries xs w)) \<le> n_calls w + length xs"
proof (induction xs arbitrary: w)
  case Nil then show ?case by simp
next
  case (Cons a xs)
  show ?case
  proof (cases "is_failure (service e (n_calls w) pr)")
    case True
    show ?thesis
      using Cons.IH [of "failed_attempt (service e (n_calls w) pr) pr p retries a w"]
      by (simp add: attempts_failure [OF True])
  next
    case False
    then obtain d where "service e (n_calls w) pr = Payload d"
      by (cases "service e (n_calls w) pr") (simp_all add: is_failure_def)
    then show ?thesis by (simp add: attempts_payload)
  qed
qed

lemma generate_image_budget:
  "n_calls (snd (generate_image e pr p retries w)) \<le> n_calls w + nat (1 + retries)"
  using attempts_calls_le [of e pr p retries "[0..retries]" w]
  by (simp add: generate_image_def add.commute)

lemma third_time_lucky:
  assumes "is_failure (service e (n_calls w) pr)" "is_failure (service e (n_calls w + 1) pr)"
    "service e (n_calls w + 2) pr = Payload d"
  shows "fst (generate_image e pr p retries w) \<longleftrightarrow> 2 \<le> retries"
proof (cases "2 \<le> retries")
  case True
  then have l: "2 < length [0..retries]" by simp
  have "\<forall>i<2. is_failure (service e (n_calls w + i) pr)"
    using assms by (auto simp: less_Suc_eq numeral_2_eq_2)
  from attempts_first_success [OF l this assms(3)] True show ?thesis
    by (simp add: generate_image_def)
next
  case False
  then have "length [0..retries] \<le> 2" by simp
  then have "\<forall>i<length [0..retries]. is_failure (service e (n_calls w + i) pr)"
    using assms by (auto simp: less_Suc_eq numeral_2_eq_2 le_Suc_eq)
  from attempts_all_fail [OF this] False show ?thesis by (simp add: generate_image_def)
qed

lemma is_failure_as_error [simp]: "is_failure (as_error r) = is_failure r"
  by (cases r) (simp_all add: as_error_def is_failure_def)

lemma as_error_payload [simp]: "as_error r = Payload d \<longleftrightarrow> r = Payload d"
  by (cases r) (simp_all add: as_error_def)

lemma attempts_as_error:
  "n_calls w' = n_calls w \<Longrightarrow> files w' = files w \<Longrightarrow>
   fst (attempts (e\<lparr>service := \<lambda>n q. as_error (service e n q)\<rparr>) pr p retries xs w')
     = fst (attempts e pr p retries xs w) \<and>
   n_calls (snd (attempts (e\<lparr>service := \<lambda>n q. as_error (service e n q)\<rparr>) pr p retries xs w'))
     = n_calls (snd (attempts e pr p retries xs w)) \<and>
   files (snd (attempts (e\<lparr>service := \<lambda>n q. as_error (service e n q)\<rparr>) pr p retries xs w'))
     = files (snd (attempts e pr p retries xs w))"
proof (induction xs arbitrary: w w')
  case Nil then show ?case by simp
next
  case (Cons a xs)
  let ?e = "e\<lparr>service := \<lambda>n q. as_error (service e n q)\<rparr>"
  show ?case
  proof (cases "is_failure (service e (n_calls w) pr)")
    case True
    then have t': "is_failure (service ?e (n_calls w') pr)" using Cons.prems by simp
    let ?v = "failed_attempt (service e (n_calls w) pr) pr p retries a w"
    let ?v' = "failed_attempt (service ?e (n_calls w') pr) pr p retries a w'"
    have "n_calls ?v' = n_calls ?v" "files ?v' = files ?v" using Cons.prems by simp_all
    from Cons.IH [OF this] show ?thesis
      by (simp add: attempts_failure [OF True] attempts_failure [OF t'])
  next
    case False
    then obtain d where d: "service e (n_calls w) pr = Payload d"
      by (cases "service e (n_calls w) pr") (simp_all add: is_failure_def)
    then have "service ?e (n_calls w') pr = Payload d" using Cons.prems by simp
    with d show ?thesis using Cons.prems by (simp add: attempts_payload)
  qed
qed

lemma upt_shift: "[0..<Suc n] = 0 # map Suc [0..<n]"
  by (simp add: upt_conv_Cons map_Suc_upt del: upt_Suc)

lemma attempts_waits:
  "retry_waits (trace (snd (attempts e pr p retries [a..retries] w))) =
     retry_waits (trace w) @
     map wait_after (take (nat (retries - a))
       (takeWhile is_failure (map (\<lambda>i. service e (n_calls w + i) pr) [0..<nat (retries + 1 - a)])))"
proof (induction a retries arbitrary: w rule: upto.induct)
  case (1 a retries)
  show ?case
  proof (cases "a \<le> retries")
    case False
    then show ?thesis by simp
  next
    case True
    then have u: "[a..retries] = a # [a + 1..retries]" by (simp add: upto_rec1)
    from True have n: "nat (retries + 1 - a) = Suc (nat (retries - a))" by simp
    show ?thesis
    proof (cases "is_failure (service e (n_calls w) pr)")
      case False
      then obtain d where d: "service e (n_calls w) pr = Payload d"
        by (cases "service e (n_calls w) pr") (simp_all add: is_failure_def)
      with False show ?thesis
        by (simp add: u n upt_shift attempts_payload retry_waits_def del: upt_Suc)
    next
      case f: True
      let ?v = "failed_attempt (service e (n_calls w) pr) pr p retries a w"
      have m: "nat (retries + 1 - (a + 1)) = nat (retries - a)" by simp
      show ?thesis
      proof (cases "a < retries")
        case lt: True
        then have k: "nat (retries - a) = Suc (nat (retries - (a + 1)))" by simp
        show ?thesis
          using "1.IH" [OF True, of ?v] f lt
          by (simp add: u n m upt_shift attempts_failure [OF f] retry_waits_failed_attempt
              comp_def k del: upt_Suc)
      next
        case ge: False
        with True have eq: "a = retries" by simp
        show ?thesis
          using "1.IH" [OF True, of ?v] f
          by (simp add: u eq attempts_failure retry_waits_failed_attempt)
      qed
    qed
  qed
qed

text \<open>
  C4: a call of \<open>generate_image\<close> makes at most \<open>1 + retries\<close> API calls, and exactly
  that many when every attempt fails (three with the default \<open>retries = 2\<close>). If the
  next two calls of the service fail and the third returns an image, the call succeeds
  exactly when \<open>retries \<ge> 2\<close>. A response without image counts as a failed attempt as
  an exception does: turning every such response into an exception changes neither the
  result, nor the number of calls, nor the files (the pause alone differs, 2 s against
  3 s).
\<close>

theorem retry_budget:
  "n_calls (snd (generate_image e pr p retries w)) \<le> n_calls w + nat (1 + retries) \<and>
   ((\<forall>i<nat (1 + retries). is_failure (service e (n_calls w + i) pr)) \<longrightarrow>
      \<not> fst (generate_image e pr p retries w) \<and>
      n_calls (snd (generate_image e pr p retries w)) = n_calls w + nat (1 + retries)) \<and>
   (is_failure (service e (n_calls w) pr) \<and> is_failure (service e (n_calls w + 1) pr) \<and>
    (\<exists>d. service e (n_calls w + 2) pr = Payload d) \<longrightarrow>
      (fst (generate_image e pr p retries w) \<longleftrightarrow> 2 \<le> retries)) \<and>
   fst (generate_image (e\<lparr>service := \<lambda>n q. as_error (service e n q)\<rparr>) pr p retries w)
     = fst (generate_image e pr p retries w) \<and>
   n_calls (snd (generate_image (e\<lparr>service := \<lambda>n q. as_error (service e n q)\<rparr>) pr p retries w))
     = n_calls (snd (generate_image e pr p retries w)) \<and>
   files (snd (generate_image (e\<lparr>service := \<lambda>n q. as_error (service e n q)\<rparr>) pr p retries w))
     = files (snd (generate_image e pr p retries w))"
proof -
  have a: "n_calls (snd (generate_image e pr p retries w)) \<le> n_calls w + nat (1 + retries)"
    by (rule generate_image_budget)
  have b: "(\<forall>i<nat (1 + retries). is_failure (service e (n_calls w + i) pr)) \<longrightarrow>
      \<not> fst (generate_image e pr p retries w) \<and>
      n_calls (snd (generate_image e pr p retries w)) = n_calls w + nat (1 + retries)"
    using attempts_all_fail [of "[0..retries]" e w pr p retries]
    by (simp add: generate_image_def add.commute)
  have c: "is_failure (service e (n_calls w) pr) \<and> is_failure (service e (n_calls w + 1) pr) \<and>
    (\<exists>d. service e (n_calls w + 2) pr = Payload d) \<longrightarrow>
      (fst (generate_image e pr p retries w) \<longleftrightarrow> 2 \<le> retries)"
    using third_time_lucky [of e w pr _ p retries] by blast
  have d: "fst (generate_image (e\<lparr>service := \<lambda>n q. as_error (service e n q)\<rparr>) pr p retries w)
     = fst (generate_image e pr p retries w) \<and>
   n_calls (snd (generate_image (e\<lparr>service := \<lambda>n q. as_error (service e n q)\<rparr>) pr p retries w))
     = n_calls (snd (generate_image e pr p retries w)) \<and>
   files (snd (generate_image (e\<lparr>service := \<lambda>n q. as_error (service e n q)\<rparr>) pr p retries w))
     = files (snd (generate_image e pr p retries w))"
    using attempts_as_error [of w w e pr p retries "[0..retries]"]
    by (simp add: generate_image_def)
  from a b c d show ?thesis by blast
qed

theorem retry_budget_witness:
  "fst (generate_image flaky_env ''prompt'' ''tiles/grass_plains.png'' 2 empty_world) \<and>
   \<not> fst (generate_image flaky_env ''prompt'' ''tiles/grass_plains.png'' 1 empty_world) \<and>
   \<not> fst (generate_image failing_env ''prompt'' ''tiles/grass_plains.png'' 2 empty_world) \<and>
   n_calls (snd (generate_image failing_env ''prompt'' ''tiles/grass_plains.png'' 2 empty_world)) = 3"
proof -
  have f: "is_failure (service flaky_env (n_calls empty_world) ''prompt'') \<and>
      is_failure (service flaky_env (n_calls empty_world + 1) ''prompt'') \<and>
      (\<exists>d. service flaky_env (n_calls empty_world + 2) ''prompt'' = Payload d)"
    by (simp add: flaky_env_def demo_env_def empty_world_def is_failure_def)
  have g: "\<forall>i<nat (1 + 2). is_failure (service failing_env (n_calls empty_world + i) ''prompt'')"
    by (simp add: failing_env_def demo_env_def is_failure_def)
  have n: "n_calls empty_world = 0" by (simp add: empty_world_def)
  from f retry_budget [of flaky_env "''prompt''" "''tiles/grass_plains.png''" 2 empty_world]
  have 1: "fst (generate_image flaky_env ''prompt'' ''tiles/grass_plains.png'' 2 empty_world)"
    by simp
  from f retry_budget [of flaky_env "''prompt''" "''tiles/grass_plains.png''" 1 empty_world]
  have 2: "\<not> fst (generate_image flaky_env ''prompt'' ''tiles/grass_plains.png'' 1 empty_world)"
    by simp
  from g n retry_budget [of failing_env "''prompt''" "''tiles/grass_plains.png''" 2 empty_world]
  have 3: "\<not> fst (generate_image failing_env ''prompt'' ''tiles/grass_plains.png'' 2 empty_world) \<and>
   n_calls (snd (generate_image failing_env ''prompt'' ''tiles/grass_plains.png'' 2 empty_world)) = 3"
    by simp
  from 1 2 3 show ?thesis by blast
qed

text \<open>
  C6, as the code has it: the pauses of one call of \<open>generate_image\<close> are one pause
  after each failed attempt that is not the last of the budget, of 2 s after a response
  without image and of 3 s after an exception, whatever the number of the attempt.
\<close>

theorem backoff_schedule:
  "retry_waits (trace (snd (generate_image e pr p retries w))) =
     retry_waits (trace w) @
     map wait_after (take (nat retries)
       (takeWhile is_failure
          (map (\<lambda>i. service e (n_calls w + i) pr) [0..<nat (retries + 1)])))"
  using attempts_waits [of e pr p retries 0 w] by (simp add: generate_image_def)

text \<open>
  C6 as stated fails: against a service that raises on every call, the two pauses of a
  call with the default budget are both 3 s, so the first is not shorter than the second.
\<close>

theorem backoff_schedule_counterexample:
  "retry_waits (trace (snd (generate_image failing_env ''prompt'' ''tiles/grass_plains.png'' 2
      empty_world))) = [3, 3] \<and>
   \<not> sorted_wrt (<) (retry_waits (trace (snd (generate_image failing_env ''prompt''
      ''tiles/grass_plains.png'' 2 empty_world))))"
  by (simp add: generate_image_def upto_rec1 attempts.simps failing_env_def demo_env_def
      empty_world_def Let_def emit_def retry_waits_def)

subsection \<open>What the steps of a run leave alone\<close>

lemma quiet_refl [simp]: "quiet p w w" by (simp add: quiet_def)
lemma quiet_trans: "quiet p w w1 \<Longrightarrow> quiet p w1 w2 \<Longrightarrow> quiet p w w2"
  by (auto simp: quiet_def)
lemma grows_refl [simp]: "grows w w" by (simp add: grows_def pace_sleeps_def)
lemma pace_sleeps_append [simp]: "pace_sleeps (xs @ ys) = pace_sleeps xs @ pace_sleeps ys"
  by (simp add: pace_sleeps_def)
lemma grows_trans: "grows w w1 \<Longrightarrow> grows w1 w2 \<Longrightarrow> grows w w2"
  by (auto simp: grows_def)

lemma failed_attempt_quiet: "quiet p w (failed_attempt r pr q retries a w)"
  by (cases r) (auto simp: quiet_def failed_attempt_def emit_def concerns_def)

lemma failed_attempt_grows: "grows w (failed_attempt r pr q retries a w)"
  by (auto simp: grows_def failed_attempt_def emit_def pace_sleeps_def)

lemma attempts_quiet: "q \<noteq> p \<Longrightarrow> quiet p w (snd (attempts e pr q retries xs w))"
proof (induction xs arbitrary: w)
  case Nil then show ?case by simp
next
  case (Cons a xs)
  show ?case
  proof (cases "is_failure (service e (n_calls w) pr)")
    case True
    show ?thesis
      using quiet_trans [OF failed_attempt_quiet Cons.IH [OF Cons.prems]]
      by (simp add: attempts_failure [OF True])
  next
    case False
    then obtain d where "service e (n_calls w) pr = Payload d"
      by (cases "service e (n_calls w) pr") (simp_all add: is_failure_def)
    then show ?thesis using Cons.prems by (simp add: attempts_payload quiet_def concerns_def)
  qed
qed

lemma attempts_grows: "grows w (snd (attempts e pr q retries xs w))"
proof (induction xs arbitrary: w)
  case Nil then show ?case by simp
next
  case (Cons a xs)
  show ?case
  proof (cases "is_failure (service e (n_calls w) pr)")
    case True
    show ?thesis
      using grows_trans [OF failed_attempt_grows Cons.IH]
      by (simp add: attempts_failure [OF True])
  next
    case False
    then obtain d where "service e (n_calls w) pr = Payload d"
      by (cases "service e (n_calls w) pr") (simp_all add: is_failure_def)
    then show ?thesis by (simp add: attempts_payload grows_def pace_sleeps_def)
  qed
qed

lemma attempts_success_exists:
  "fst (attempts e pr q retries xs w) \<Longrightarrow> files (snd (attempts e pr q retries xs w)) q \<noteq> None"
proof (induction xs arbitrary: w)
  case Nil then show ?case by simp
next
  case (Cons a xs)
  show ?case
  proof (cases "is_failure (service e (n_calls w) pr)")
    case True
    with Cons show ?thesis by (simp add: attempts_failure [OF True])
  next
    case False
    then obtain d where "service e (n_calls w) pr = Payload d"
      by (cases "service e (n_calls w) pr") (simp_all add: is_failure_def)
    then show ?thesis by (simp add: attempts_payload)
  qed
qed

lemma attempts_first_event:
  "xs \<noteq> [] \<Longrightarrow> \<exists>es. trace (snd (attempts e pr q retries xs w)) = trace w @ ApiCall pr # es"
proof (cases xs)
  case Nil then show "xs \<noteq> [] \<Longrightarrow> ?thesis" by simp
next
  case (Cons a ys)
  show ?thesis
  proof (cases "is_failure (service e (n_calls w) pr)")
    case True
    let ?v = "failed_attempt (service e (n_calls w) pr) pr q retries a w"
    from attempts_grows [of ?v e pr q retries ys] obtain es where
      "trace (snd (attempts e pr q retries ys ?v)) = trace ?v @ es" by (auto simp: grows_def)
    then show ?thesis using Cons
      by (simp add: attempts_failure [OF True] failed_attempt_def emit_def)
  next
    case False
    then obtain d where "service e (n_calls w) pr = Payload d"
      by (cases "service e (n_calls w) pr") (simp_all add: is_failure_def)
    then show ?thesis using Cons by (simp add: attempts_payload)
  qed
qed

lemma post_process_quiet: "q \<noteq> p \<Longrightarrow> quiet p w (snd (post_process e q tw th w))"
  by (auto simp: post_process_def quiet_def emit_def concerns_def Let_def
      split: option.splits sum.splits)

lemma post_process_grows: "grows w (snd (post_process e q tw th w))"
  by (auto simp: post_process_def grows_def emit_def pace_sleeps_def Let_def
      split: option.splits sum.splits)

lemma process_record_skip:
  "output_exists w p \<Longrightarrow> \<not> force a \<Longrightarrow>
   process_record e a (p, sp) (w, c) =
     (None, emit [Print (SkipLine p)] w, c\<lparr>processed := processed c + 1, skipped := skipped c + 1\<rparr>)"
  by (simp add: process_record_def Let_def)

lemma emit_quiet: "\<forall>ev \<in> set es. \<not> concerns p ev \<Longrightarrow> quiet p w (emit es w)"
  by (simp add: quiet_def emit_def)

lemma emit_grows: "pace_sleeps es = [] \<Longrightarrow> grows w (emit es w)"
  by (simp add: grows_def emit_def)

lemma generate_image_quiet: "q \<noteq> p \<Longrightarrow> quiet p w (snd (generate_image e pr q retries w))"
  by (simp add: generate_image_def attempts_quiet)

lemma generate_image_grows: "grows w (snd (generate_image e pr q retries w))"
  by (simp add: generate_image_def attempts_grows)

lemma generate_image_success_exists:
  "fst (generate_image e pr q retries w) \<Longrightarrow> files (snd (generate_image e pr q retries w)) q \<noteq> None"
  by (simp add: generate_image_def attempts_success_exists)

lemma keeps_refl [simp]: "keeps w w" by (simp add: keeps_def)
lemma keeps_trans: "keeps w w1 \<Longrightarrow> keeps w1 w2 \<Longrightarrow> keeps w w2" by (simp add: keeps_def)
lemma grows_keeps: "grows w w' \<Longrightarrow> keeps w w'" by (simp add: grows_def keeps_def)
lemma keeps_emit [simp]: "keeps w (emit es w)" by (simp add: keeps_def emit_def)
lemma keeps_emit2: "keeps w w' \<Longrightarrow> keeps w (emit es w')" by (simp add: keeps_def emit_def)

lemma process_record_generate:
  fixes e :: env and a :: args and sp :: spec and p :: path and w :: world
  assumes "\<not> (output_exists w p \<and> \<not> force a)"
  defines "g \<equiv> generate_image e (build_prompt sp) p 2 (emit [Print (GeneratingLine p)] w)"
  defines "pp \<equiv> (if \<not> no_post a then post_process e p (width_px sp) (height_px sp) (snd g)
                   else (None, snd g))"
  shows "process_record e a (p, sp) (w, c) =
     (if fst g
      then (case fst pp of
              Some x \<Rightarrow> (Some x, snd pp, c\<lparr>processed := processed c + 1, generated := generated c + 1\<rparr>)
            | None \<Rightarrow>
               (case sleep_error e (delay a) of
                  Some x \<Rightarrow> (Some x, snd pp, c\<lparr>processed := processed c + 1, generated := generated c + 1\<rparr>)
                | None \<Rightarrow> (None, emit [PaceSleep (delay a)] (snd pp),
                     c\<lparr>processed := processed c + 1, generated := generated c + 1\<rparr>)))
      else (None, snd g, c\<lparr>processed := processed c + 1, failed := failed c + 1\<rparr>))"
  using assms(1) unfolding g_def pp_def
  by (auto simp: process_record_def Let_def split: option.splits)

lemma process_record_keeps: "keeps w (fst (snd (process_record e a r (w, c))))"
proof (cases "output_exists w (fst r) \<and> \<not> force a")
  case True
  then show ?thesis using process_record_skip [of w "fst r" a e "snd r" c] by simp
next
  case False
  let ?w1 = "emit [Print (GeneratingLine (fst r))] w"
  let ?g = "generate_image e (build_prompt (snd r)) (fst r) 2 ?w1"
  have k1: "keeps w (snd ?g)"
    using keeps_trans [OF keeps_emit grows_keeps [OF generate_image_grows]] .
  have k2: "keeps w (snd (post_process e (fst r) (width_px (snd r)) (height_px (snd r)) (snd ?g)))"
    using keeps_trans [OF k1 grows_keeps [OF post_process_grows]] .
  show ?thesis
    using process_record_generate [OF False, of e "snd r" c] k1 k2
    by (auto simp: keeps_emit2 split: option.splits)
qed

lemma process_record_quiet:
  assumes "fst r \<noteq> p \<or> (output_exists w (fst r) \<and> \<not> force a)"
  shows "quiet p w (fst (snd (process_record e a r (w, c))))"
proof (cases "output_exists w (fst r) \<and> \<not> force a")
  case True
  then show ?thesis using process_record_skip [of w "fst r" a e "snd r" c]
    by (simp add: emit_quiet concerns_def)
next
  case False
  with assms have ne: "fst r \<noteq> p" by blast
  let ?w1 = "emit [Print (GeneratingLine (fst r))] w"
  let ?g = "generate_image e (build_prompt (snd r)) (fst r) 2 ?w1"
  let ?pp = "post_process e (fst r) (width_px (snd r)) (height_px (snd r)) (snd ?g)"
  have q0: "quiet p w ?w1" using ne by (simp add: emit_quiet concerns_def)
  have q1: "quiet p w (snd ?g)" using quiet_trans [OF q0 generate_image_quiet [OF ne]] .
  have q2: "quiet p w (snd ?pp)" using quiet_trans [OF q1 post_process_quiet [OF ne]] .
  have q3: "quiet p w (emit [PaceSleep (delay a)] (snd ?g))"
    using quiet_trans [OF q1 emit_quiet] by (simp add: concerns_def)
  have q4: "quiet p w (emit [PaceSleep (delay a)] (snd ?pp))"
    using quiet_trans [OF q2 emit_quiet] by (simp add: concerns_def)
  show ?thesis
    using process_record_generate [OF False, of e "snd r" c] q1 q2 q3 q4
    by (auto split: option.splits)
qed

lemma process_record_materialized:
  assumes "process_record e a r (w, c) = (None, w', c')" and "failed c' = failed c"
  shows "output_exists w' (fst r)"
proof (cases "output_exists w (fst r) \<and> \<not> force a")
  case True
  then show ?thesis using assms process_record_skip [of w "fst r" a e "snd r" c]
    by (auto simp: output_exists_def emit_def)
next
  case False
  let ?w1 = "emit [Print (GeneratingLine (fst r))] w"
  let ?g = "generate_image e (build_prompt (snd r)) (fst r) 2 ?w1"
  let ?pp = "post_process e (fst r) (width_px (snd r)) (height_px (snd r)) (snd ?g)"
  have g: "fst ?g" using assms process_record_generate [OF False, of e "snd r" c]
    by (auto split: if_splits)
  then have x: "files (snd ?g) (fst r) \<noteq> None" by (rule generate_image_success_exists)
  have "keeps (snd ?g) (snd ?pp)" by (rule grows_keeps [OF post_process_grows])
  with x have y: "files (snd ?pp) (fst r) \<noteq> None" by (simp add: keeps_def)
  show ?thesis
    using assms process_record_generate [OF False, of e "snd r" c] g x y
    by (auto simp: output_exists_def emit_def split: option.splits if_splits)
qed

lemma process_record_failed_mono: "failed c \<le> failed (snd (snd (process_record e a r (w, c))))"
proof (cases "output_exists w (fst r) \<and> \<not> force a")
  case True
  then show ?thesis using process_record_skip [of w "fst r" a e "snd r" c] by simp
next
  case False
  show ?thesis using process_record_generate [OF False, of e "snd r" c]
    by (auto split: option.splits)
qed

lemma run_assets_keeps: "run_assets e a rs (w, c) = (x, w', c') \<Longrightarrow> keeps w w'"
proof (induction rs arbitrary: w c)
  case Nil then show ?case by simp
next
  case (Cons r rs)
  obtain y w1 c1 where s: "process_record e a r (w, c) = (y, w1, c1)" by (cases "process_record e a r (w, c)") auto
  have k: "keeps w w1" using process_record_keeps [of w e a r c] s by simp
  show ?case
  proof (cases y)
    case None
    with Cons.prems s have "run_assets e a rs (w1, c1) = (x, w', c')" by simp
    from keeps_trans [OF k Cons.IH [OF this]] show ?thesis .
  next
    case (Some z)
    with Cons.prems s k show ?thesis by simp
  qed
qed

lemma run_assets_failed_mono: "run_assets e a rs (w, c) = (x, w', c') \<Longrightarrow> failed c \<le> failed c'"
proof (induction rs arbitrary: w c)
  case Nil then show ?case by simp
next
  case (Cons r rs)
  obtain y w1 c1 where s: "process_record e a r (w, c) = (y, w1, c1)" by (cases "process_record e a r (w, c)") auto
  have k: "failed c \<le> failed c1" using process_record_failed_mono [of c e a r w] s by simp
  show ?case
  proof (cases y)
    case None
    with Cons.prems s have "run_assets e a rs (w1, c1) = (x, w', c')" by simp
    from Cons.IH [OF this] k show ?thesis by simp
  next
    case (Some z)
    with Cons.prems s k show ?thesis by simp
  qed
qed

lemma run_assets_quiet:
  "output_exists w p \<Longrightarrow> \<not> force a \<Longrightarrow> run_assets e a rs (w, c) = (x, w', c') \<Longrightarrow> quiet p w w'"
proof (induction rs arbitrary: w c)
  case Nil then show ?case by simp
next
  case (Cons r rs)
  obtain y w1 c1 where s: "process_record e a r (w, c) = (y, w1, c1)" by (cases "process_record e a r (w, c)") auto
  have "fst r \<noteq> p \<or> (output_exists w (fst r) \<and> \<not> force a)" using Cons.prems by auto
  from process_record_quiet [OF this, of e c] s have q: "quiet p w w1" by simp
  then have ex: "output_exists w1 p" using Cons.prems(1) by (simp add: quiet_def output_exists_def)
  show ?case
  proof (cases y)
    case None
    with Cons.prems s have "run_assets e a rs (w1, c1) = (x, w', c')" by simp
    from quiet_trans [OF q Cons.IH [OF ex Cons.prems(2) this]] show ?thesis .
  next
    case (Some z)
    with Cons.prems s q show ?thesis by simp
  qed
qed

lemma run_assets_all_skipped:
  "\<not> force a \<Longrightarrow> \<forall>r \<in> set rs. output_exists w (fst r) \<Longrightarrow>
   run_assets e a rs (w, c) =
     (None, emit (map (\<lambda>r. Print (SkipLine (fst r))) rs) w,
      c\<lparr>processed := processed c + length rs, skipped := skipped c + length rs\<rparr>)"
proof (induction rs arbitrary: w c)
  case Nil then show ?case by (simp add: emit_def)
next
  case (Cons r rs)
  have s: "process_record e a r (w, c) =
     (None, emit [Print (SkipLine (fst r))] w, c\<lparr>processed := processed c + 1, skipped := skipped c + 1\<rparr>)"
    using process_record_skip [of w "fst r" a e "snd r" c] Cons.prems by simp
  have "\<forall>q \<in> set rs. output_exists (emit [Print (SkipLine (fst r))] w) (fst q)"
    using Cons.prems by (simp add: output_exists_def emit_def)
  from Cons.IH [OF Cons.prems(1) this] show ?case by (simp add: s emit_def)
qed

lemma run_assets_materialized:
  "run_assets e a rs (w, c) = (None, w', c') \<Longrightarrow> failed c' = failed c \<Longrightarrow>
   \<forall>r \<in> set rs. output_exists w' (fst r)"
proof (induction rs arbitrary: w c)
  case Nil then show ?case by simp
next
  case (Cons r rs)
  obtain y w1 c1 where s: "process_record e a r (w, c) = (y, w1, c1)" by (cases "process_record e a r (w, c)") auto
  with Cons.prems have y: "y = None" by (cases y) auto
  with Cons.prems s have run: "run_assets e a rs (w1, c1) = (None, w', c')" by simp
  have "failed c \<le> failed c1" using process_record_failed_mono [of c e a r w] s by simp
  moreover have "failed c1 \<le> failed c'" using run_assets_failed_mono [OF run] .
  ultimately have f: "failed c1 = failed c" "failed c' = failed c1" using Cons.prems(2) by simp_all
  have "output_exists w1 (fst r)" using process_record_materialized [of e a r w c w1 c1] s y f by simp
  moreover have "keeps w1 w'" using run_assets_keeps [OF run] .
  ultimately have "output_exists w' (fst r)" by (simp add: keeps_def output_exists_def)
  with Cons.IH [OF run f(2)] show ?case by simp
qed

lemma run_categories_keeps: "run_categories e a cs (w, c) = (x, w', c') \<Longrightarrow> keeps w w'"
proof (induction cs arbitrary: w c)
  case Nil then show ?case by simp
next
  case (Cons k cs)
  obtain cat_name assets where k: "k = (cat_name, assets)" by (cases k)
  let ?w0 = "emit [Print (CategoryLine cat_name (length assets))] w"
  obtain y w1 c1 where s: "run_assets e a assets (?w0, c) = (y, w1, c1)"
    by (cases "run_assets e a assets (?w0, c)") auto
  have k1: "keeps w w1" using keeps_trans [OF keeps_emit run_assets_keeps [OF s]] .
  show ?case
  proof (cases y)
    case None
    with Cons.prems s k have "run_categories e a cs (w1, c1) = (x, w', c')" by simp
    from keeps_trans [OF k1 Cons.IH [OF this]] show ?thesis .
  next
    case (Some z)
    with Cons.prems s k k1 show ?thesis by simp
  qed
qed

lemma run_categories_failed_mono:
  "run_categories e a cs (w, c) = (x, w', c') \<Longrightarrow> failed c \<le> failed c'"
proof (induction cs arbitrary: w c)
  case Nil then show ?case by simp
next
  case (Cons k cs)
  obtain cat_name assets where k: "k = (cat_name, assets)" by (cases k)
  let ?w0 = "emit [Print (CategoryLine cat_name (length assets))] w"
  obtain y w1 c1 where s: "run_assets e a assets (?w0, c) = (y, w1, c1)"
    by (cases "run_assets e a assets (?w0, c)") auto
  have k1: "failed c \<le> failed c1" using run_assets_failed_mono [OF s] .
  show ?case
  proof (cases y)
    case None
    with Cons.prems s k have "run_categories e a cs (w1, c1) = (x, w', c')" by simp
    from Cons.IH [OF this] k1 show ?thesis by simp
  next
    case (Some z)
    with Cons.prems s k k1 show ?thesis by simp
  qed
qed

lemma run_categories_quiet:
  "output_exists w p \<Longrightarrow> \<not> force a \<Longrightarrow> run_categories e a cs (w, c) = (x, w', c') \<Longrightarrow>
   quiet p w w'"
proof (induction cs arbitrary: w c)
  case Nil then show ?case by simp
next
  case (Cons k cs)
  obtain cat_name assets where k: "k = (cat_name, assets)" by (cases k)
  let ?w0 = "emit [Print (CategoryLine cat_name (length assets))] w"
  obtain y w1 c1 where s: "run_assets e a assets (?w0, c) = (y, w1, c1)"
    by (cases "run_assets e a assets (?w0, c)") auto
  have q0: "quiet p w ?w0" by (simp add: emit_quiet concerns_def)
  then have "output_exists ?w0 p" using Cons.prems(1) by (simp add: quiet_def output_exists_def)
  from quiet_trans [OF q0 run_assets_quiet [OF this Cons.prems(2) s]] have q: "quiet p w w1" .
  then have ex: "output_exists w1 p" using Cons.prems(1) by (simp add: quiet_def output_exists_def)
  show ?case
  proof (cases y)
    case None
    with Cons.prems s k have "run_categories e a cs (w1, c1) = (x, w', c')" by simp
    from quiet_trans [OF q Cons.IH [OF ex Cons.prems(2) this]] show ?thesis .
  next
    case (Some z)
    with Cons.prems s k q show ?thesis by simp
  qed
qed

lemma run_categories_all_skipped:
  "\<not> force a \<Longrightarrow> \<forall>r \<in> set (all_assets cs). output_exists w (fst r) \<Longrightarrow>
   run_categories e a cs (w, c) =
     (None, emit (skip_report cs) w,
      c\<lparr>processed := processed c + length (all_assets cs),
        skipped := skipped c + length (all_assets cs)\<rparr>)"
proof (induction cs arbitrary: w c)
  case Nil then show ?case by (simp add: emit_def skip_report_def all_assets_def)
next
  case (Cons k cs)
  obtain cat_name assets where k: "k = (cat_name, assets)" by (cases k)
  let ?w0 = "emit [Print (CategoryLine cat_name (length assets))] w"
  have "\<forall>r \<in> set assets. output_exists ?w0 (fst r)"
    using Cons.prems k by (simp add: all_assets_def output_exists_def emit_def)
  from run_assets_all_skipped [OF Cons.prems(1) this]
  have s: "run_assets e a assets (?w0, c) =
     (None, emit (map (\<lambda>r. Print (SkipLine (fst r))) assets) ?w0,
      c\<lparr>processed := processed c + length assets, skipped := skipped c + length assets\<rparr>)" .
  have "\<forall>q \<in> set (all_assets cs).
      output_exists (emit (map (\<lambda>r. Print (SkipLine (fst r))) assets) ?w0) (fst q)"
    using Cons.prems k by (simp add: all_assets_def output_exists_def emit_def)
  from Cons.IH [OF Cons.prems(1) this]
  have ih: "run_categories e a cs
      (emit (map (\<lambda>r. Print (SkipLine (fst r))) assets) ?w0,
       c\<lparr>processed := processed c + length assets, skipped := skipped c + length assets\<rparr>) =
     (None, emit (skip_report cs) (emit (map (\<lambda>r. Print (SkipLine (fst r))) assets) ?w0),
      c\<lparr>processed := processed c + length assets, skipped := skipped c + length assets\<rparr>
       \<lparr>processed := processed (c\<lparr>processed := processed c + length assets,
                     skipped := skipped c + length assets\<rparr>) + length (all_assets cs),
        skipped := skipped (c\<lparr>processed := processed c + length assets,
                     skipped := skipped c + length assets\<rparr>) + length (all_assets cs)\<rparr>)" .
  have step: "run_categories e a (k # cs) (w, c) =
      run_categories e a cs
        (emit (map (\<lambda>r. Print (SkipLine (fst r))) assets) ?w0,
         c\<lparr>processed := processed c + length assets, skipped := skipped c + length assets\<rparr>)"
    unfolding k by (simp only: run_categories.simps fst_conv snd_conv s prod.case option.case)
  show ?case unfolding step ih
    by (simp add: k emit_def skip_report_def all_assets_def)
qed

lemma run_categories_materialized:
  "run_categories e a cs (w, c) = (None, w', c') \<Longrightarrow> failed c' = failed c \<Longrightarrow>
   \<forall>r \<in> set (all_assets cs). output_exists w' (fst r)"
proof (induction cs arbitrary: w c)
  case Nil then show ?case by (simp add: all_assets_def)
next
  case (Cons k cs)
  obtain cat_name assets where k: "k = (cat_name, assets)" by (cases k)
  let ?w0 = "emit [Print (CategoryLine cat_name (length assets))] w"
  obtain y w1 c1 where s: "run_assets e a assets (?w0, c) = (y, w1, c1)"
    by (cases "run_assets e a assets (?w0, c)") auto
  with Cons.prems k have y: "y = None" by (cases y) auto
  with Cons.prems s k have run: "run_categories e a cs (w1, c1) = (None, w', c')" by simp
  have "failed c \<le> failed c1" using run_assets_failed_mono [OF s] .
  moreover have "failed c1 \<le> failed c'" using run_categories_failed_mono [OF run] .
  ultimately have f: "failed c1 = failed c" "failed c' = failed c1" using Cons.prems(2) by simp_all
  have "\<forall>r \<in> set assets. output_exists w1 (fst r)"
    using run_assets_materialized [of e a assets ?w0 c w1 c1] s y f by simp
  moreover have "keeps w1 w'" using run_categories_keeps [OF run] .
  ultimately have "\<forall>r \<in> set assets. output_exists w' (fst r)"
    by (simp add: keeps_def output_exists_def)
  with Cons.IH [OF run f(2)] show ?case by (auto simp: k all_assets_def)
qed

subsection \<open>The orchestrator\<close>

lemmas run_simps = main_def select_categories_def truthy_def default_args_def demo_catalog_def
  failing_env_def demo_env_def empty_world_def zero_counters_def process_record_def
  output_exists_def generate_image_def upto_rec1 attempts.simps emit_def Let_def summary_def
  all_assets_def demo_sleep_def

lemma failing_run:
  "main demo_catalog failing_env default_args empty_world =
    (Exit 0,
     \<lparr> files = Map.empty, n_calls = 3,
       trace = [Print BannerLine, Print (CategoryLine ''tiles'' 1),
                Print (GeneratingLine ''tiles/grass_plains.png''),
                ApiCall (build_prompt grass_spec), Print (ErrorLine ''tiles/grass_plains.png''),
                Print (RetryingLine 1 2), RetrySleep 3,
                ApiCall (build_prompt grass_spec), Print (ErrorLine ''tiles/grass_plains.png''),
                Print (RetryingLine 2 2), RetrySleep 3,
                ApiCall (build_prompt grass_spec), Print (ErrorLine ''tiles/grass_plains.png''),
                Print (SummaryLine 0 0 1 1), Print (FailedHintLine 1)] \<rparr>)"
  by (simp add: run_simps)

lemma garbled_run:
  "fst (main demo_catalog garbled_env default_args empty_world) = Traceback UnidentifiedImageError"
  by (simp add: run_simps garbled_env_def post_process_def decode_content_def demo_decode_def
      tiny_png_def demo_sleep_def)

lemma slow_run:
  "fst (main demo_catalog demo_env (default_args\<lparr>no_post := True, delay := Finite (2 ^ 70)\<rparr>)
     empty_world) = Traceback OverflowError"
  by (simp add: run_simps)

lemma empty_category_run:
  "map_of demo_catalog '''' = None \<and>
   exit_status (fst (main demo_catalog demo_env (default_args\<lparr>category := Some '''', list_flag := True\<rparr>) empty_world)) = 0"
  by (simp add: run_simps exit_status_def)

lemma first_run:
  "fst (main demo_catalog demo_env default_args empty_world) = Exit 0"
  by (simp add: run_simps post_process_def decode_content_def demo_decode_def one_pixel_image_def
      resize_def grass_spec_def make_spec_def)

lemma grows_pace: "grows w w' \<Longrightarrow> pace_sleeps (trace w') = pace_sleeps (trace w)"
  by (auto simp: grows_def)

lemma grows_emit_print: "grows w (emit [Print l] w)"
  by (simp add: emit_grows pace_sleeps_def)

text \<open>
  C1: without \<^verbatim>\<open>--force\<close>, a record whose output file exists is counted as skipped, and
  the only thing the loop body does for it is print the SKIP line: no API call, no
  write, no sleep. Through a whole run an existing file is never touched and nothing is
  generated for it (\<open>quiet\<close>), whatever happens to the other records. If every output
  exists, the run skips every record: the counters of generated and failed assets stay as
  they were, the files and the number of API calls too. This is the case after a first
  run with the same options that ended without a failed asset: a second run on the
  files it left, with any behaviour of the service, skips everything.
\<close>

theorem idempotent_skip:
  assumes nf: "\<not> force a"
  shows "(output_exists w p \<longrightarrow>
            process_record e a (p, sp) (w, c) =
              (None, emit [Print (SkipLine p)] w,
               c\<lparr>processed := processed c + 1, skipped := skipped c + 1\<rparr>)) \<and>
         (output_exists w p \<longrightarrow>
            (\<forall>x w' c'. run_categories e a cs (w, c) = (x, w', c') \<longrightarrow> quiet p w w')) \<and>
         ((\<forall>r \<in> set (all_assets cs). output_exists w (fst r)) \<longrightarrow>
            run_categories e a cs (w, c) =
              (None, emit (skip_report cs) w,
               c\<lparr>processed := processed c + length (all_assets cs),
                 skipped := skipped c + length (all_assets cs)\<rparr>)) \<and>
         (\<forall>e1 w0 c0 w1 c1.
            run_categories e1 a cs (w0, c0) = (None, w1, c1) \<and> failed c1 = failed c0 \<and>
            files w = files w1 \<longrightarrow>
            run_categories e a cs (w, c) =
              (None, emit (skip_report cs) w,
               c\<lparr>processed := processed c + length (all_assets cs),
                 skipped := skipped c + length (all_assets cs)\<rparr>))"
proof -
  have 1: "output_exists w p \<longrightarrow>
            process_record e a (p, sp) (w, c) =
              (None, emit [Print (SkipLine p)] w,
               c\<lparr>processed := processed c + 1, skipped := skipped c + 1\<rparr>)"
    using process_record_skip [of w p a e sp c] nf by blast
  have 2: "output_exists w p \<longrightarrow>
            (\<forall>x w' c'. run_categories e a cs (w, c) = (x, w', c') \<longrightarrow> quiet p w w')"
    using run_categories_quiet [of w p a e cs c] nf by blast
  have 3: "(\<forall>r \<in> set (all_assets cs). output_exists w (fst r)) \<longrightarrow>
            run_categories e a cs (w, c) =
              (None, emit (skip_report cs) w,
               c\<lparr>processed := processed c + length (all_assets cs),
                 skipped := skipped c + length (all_assets cs)\<rparr>)"
    using run_categories_all_skipped [of a cs w e c] nf by blast
  have 4: "\<forall>e1 w0 c0 w1 c1.
            run_categories e1 a cs (w0, c0) = (None, w1, c1) \<and> failed c1 = failed c0 \<and>
            files w = files w1 \<longrightarrow>
            run_categories e a cs (w, c) =
              (None, emit (skip_report cs) w,
               c\<lparr>processed := processed c + length (all_assets cs),
                 skipped := skipped c + length (all_assets cs)\<rparr>)"
  proof (intro allI impI)
    fix e1 w0 c0 w1 c1
    assume h: "run_categories e1 a cs (w0, c0) = (None, w1, c1) \<and> failed c1 = failed c0 \<and>
            files w = files w1"
    then have "\<forall>r \<in> set (all_assets cs). output_exists w1 (fst r)"
      using run_categories_materialized [of e1 a cs w0 c0 w1 c1] by blast
    with h have "\<forall>r \<in> set (all_assets cs). output_exists w (fst r)"
      by (simp add: output_exists_def)
    with 3 show "run_categories e a cs (w, c) =
              (None, emit (skip_report cs) w,
               c\<lparr>processed := processed c + length (all_assets cs),
                 skipped := skipped c + length (all_assets cs)\<rparr>)" by blast
  qed
  from 1 2 3 4 show ?thesis by blast
qed

theorem idempotent_skip_witness:
  "\<not> force default_args \<and>
   (\<exists>w1 c1. run_categories demo_env default_args demo_catalog (empty_world, zero_counters)
               = (None, w1, c1) \<and>
            generated c1 = 1 \<and> skipped c1 = 0 \<and> failed c1 = 0 \<and>
            run_categories failing_env default_args demo_catalog (w1, zero_counters) =
              (None, emit (skip_report demo_catalog) w1,
               zero_counters\<lparr>processed := 1, skipped := 1\<rparr>))"
proof -
  have nf: "\<not> force default_args" by (simp add: default_args_def)
  obtain x w1 c1 where
    r: "run_categories demo_env default_args demo_catalog (empty_world, zero_counters) = (x, w1, c1)"
    by (cases "run_categories demo_env default_args demo_catalog (empty_world, zero_counters)")
  then have v: "x = None \<and> generated c1 = 1 \<and> skipped c1 = 0 \<and> failed c1 = 0"
    by (auto simp: run_simps post_process_def decode_content_def demo_decode_def
        one_pixel_image_def resize_def grass_spec_def make_spec_def)
  have n: "length (all_assets demo_catalog) = 1" by (simp add: all_assets_def demo_catalog_def)
  from v r have "run_categories demo_env default_args demo_catalog (empty_world, zero_counters)
      = (None, w1, c1) \<and> failed c1 = failed zero_counters \<and> files w1 = files w1"
    by (simp add: zero_counters_def)
  with idempotent_skip [OF nf, of w1 "''tiles/grass_plains.png''" failing_env grass_spec
      zero_counters demo_catalog]
  have "run_categories failing_env default_args demo_catalog (w1, zero_counters) =
      (None, emit (skip_report demo_catalog) w1,
       zero_counters\<lparr>processed := processed zero_counters + length (all_assets demo_catalog),
         skipped := skipped zero_counters + length (all_assets demo_catalog)\<rparr>)"
    by blast
  then have "run_categories failing_env default_args demo_catalog (w1, zero_counters) =
      (None, emit (skip_report demo_catalog) w1, zero_counters\<lparr>processed := 1, skipped := 1\<rparr>)"
    by (simp add: n zero_counters_def)
  with nf v r show ?thesis by blast
qed

text \<open>
  C2, as the code has it: \<^verbatim>\<open>time.sleep(args.delay)\<close> stands in the branch of a
  successful generation. A record that is skipped gets no pacing sleep; a record whose
  generation failed is counted as failed and gets none either; a record whose generation
  succeeded, and whose post-processing and sleep raised nothing, ends with one pacing
  sleep of the configured delay.
\<close>

theorem pacing:
  fixes e :: env and a :: args and p :: path and sp :: spec and w :: world and c :: counters
  defines "g \<equiv> generate_image e (build_prompt sp) p 2 (emit [Print (GeneratingLine p)] w)"
  defines "res \<equiv> process_record e a (p, sp) (w, c)"
  shows "(output_exists w p \<and> \<not> force a \<longrightarrow>
            pace_sleeps (trace (fst (snd res))) = pace_sleeps (trace w)) \<and>
         (\<not> (output_exists w p \<and> \<not> force a) \<and> \<not> fst g \<longrightarrow>
            res = (None, snd g, c\<lparr>processed := processed c + 1, failed := failed c + 1\<rparr>) \<and>
            pace_sleeps (trace (snd g)) = pace_sleeps (trace w)) \<and>
         (\<not> (output_exists w p \<and> \<not> force a) \<and> fst g \<and> fst res = None \<longrightarrow>
            pace_sleeps (trace (fst (snd res))) = pace_sleeps (trace w) @ [delay a] \<and>
            last (trace (fst (snd res))) = PaceSleep (delay a))"
proof -
  have gg: "grows w (snd g)"
    unfolding g_def using grows_trans [OF grows_emit_print generate_image_grows] .
  then have pg: "pace_sleeps (trace (snd g)) = pace_sleeps (trace w)" by (rule grows_pace)
  have pp: "pace_sleeps (trace (snd (post_process e p (width_px sp) (height_px sp) (snd g))))
      = pace_sleeps (trace w)"
    using grows_pace [OF grows_trans [OF gg post_process_grows]] .
  have 1: "output_exists w p \<and> \<not> force a \<longrightarrow>
            pace_sleeps (trace (fst (snd res))) = pace_sleeps (trace w)"
    unfolding res_def using process_record_skip [of w p a e sp c]
    by (auto simp: emit_def pace_sleeps_def)
  have 2: "\<not> (output_exists w p \<and> \<not> force a) \<and> \<not> fst g \<longrightarrow>
            res = (None, snd g, c\<lparr>processed := processed c + 1, failed := failed c + 1\<rparr>) \<and>
            pace_sleeps (trace (snd g)) = pace_sleeps (trace w)"
    unfolding res_def using process_record_generate [of w p a e sp c] pg
    by (auto simp: g_def)
  have 3: "\<not> (output_exists w p \<and> \<not> force a) \<and> fst g \<and> fst res = None \<longrightarrow>
            pace_sleeps (trace (fst (snd res))) = pace_sleeps (trace w) @ [delay a] \<and>
            last (trace (fst (snd res))) = PaceSleep (delay a)"
    unfolding res_def using process_record_generate [of w p a e sp c] pg pp
    by (auto simp: g_def emit_def pace_sleeps_def split: option.splits if_splits)
  from 1 2 3 show ?thesis by blast
qed

theorem pacing_witness:
  "pace_sleeps (trace (fst (snd (process_record demo_env default_args
      (''tiles/grass_plains.png'', grass_spec) (empty_world, zero_counters))))) = [Finite 1] \<and>
   pace_sleeps (trace (fst (snd (process_record failing_env default_args
      (''tiles/grass_plains.png'', grass_spec) (empty_world, zero_counters))))) = []"
proof -
  have a: "\<not> (output_exists empty_world ''tiles/grass_plains.png'' \<and> \<not> force default_args)"
    by (simp add: output_exists_def empty_world_def)
  have b: "fst (generate_image demo_env (build_prompt grass_spec) ''tiles/grass_plains.png'' 2
      (emit [Print (GeneratingLine ''tiles/grass_plains.png'')] empty_world))"
    by (simp add: run_simps)
  have c: "fst (process_record demo_env default_args (''tiles/grass_plains.png'', grass_spec)
      (empty_world, zero_counters)) = None"
    by (simp add: run_simps post_process_def decode_content_def demo_decode_def
        one_pixel_image_def resize_def grass_spec_def make_spec_def)
  have d: "\<not> fst (generate_image failing_env (build_prompt grass_spec) ''tiles/grass_plains.png'' 2
      (emit [Print (GeneratingLine ''tiles/grass_plains.png'')] empty_world))"
    by (simp add: run_simps)
  have e: "pace_sleeps (trace empty_world) = []" "delay default_args = Finite 1"
    by (simp_all add: empty_world_def pace_sleeps_def default_args_def)
  from a b c e pacing [of empty_world "''tiles/grass_plains.png''" default_args demo_env
      grass_spec zero_counters]
  have 1: "pace_sleeps (trace (fst (snd (process_record demo_env default_args
      (''tiles/grass_plains.png'', grass_spec) (empty_world, zero_counters))))) = [Finite 1]"
    by simp
  from a d e pacing [of empty_world "''tiles/grass_plains.png''" default_args failing_env
      grass_spec zero_counters]
  have 2: "pace_sleeps (trace (fst (snd (process_record failing_env default_args
      (''tiles/grass_plains.png'', grass_spec) (empty_world, zero_counters))))) = []"
    by simp
  from 1 2 show ?thesis by blast
qed

text \<open>
  C2 as stated fails: with a service that raises on every call, the run of the one-asset
  catalog reports one failed asset and never sleeps the configured delay.
\<close>

theorem pacing_counterexample:
  "fst (main demo_catalog failing_env default_args empty_world) = Exit 0 \<and>
   Print (SummaryLine 0 0 1 1) \<in> set (trace (snd (main demo_catalog failing_env default_args
     empty_world))) \<and>
   pace_sleeps (trace (snd (main demo_catalog failing_env default_args empty_world))) = []"
  by (simp add: failing_run pace_sleeps_def)

lemma process_record_first_events:
  assumes "\<not> (output_exists w p \<and> \<not> force a)"
  shows "\<exists>es. trace (fst (snd (process_record e a (p, sp) (w, c)))) =
           trace w @ Print (GeneratingLine p) # ApiCall (build_prompt sp) # es"
proof -
  let ?w1 = "emit [Print (GeneratingLine p)] w"
  let ?g = "generate_image e (build_prompt sp) p 2 ?w1"
  let ?pp = "post_process e p (width_px sp) (height_px sp) (snd ?g)"
  have "[0..2] \<noteq> []" by (simp add: upto_rec1)
  from attempts_first_event [OF this, of e "build_prompt sp" p 2 ?w1]
  obtain es where g: "trace (snd ?g) = trace w @ Print (GeneratingLine p) # ApiCall (build_prompt sp) # es"
    by (auto simp: generate_image_def emit_def)
  from post_process_grows [of "snd ?g" e p "width_px sp" "height_px sp"]
  obtain es' where pp: "trace (snd ?pp) = trace (snd ?g) @ es'" by (auto simp: grows_def)
  show ?thesis
    using process_record_generate [OF assms, of e sp c] g pp
    by (auto simp: emit_def split: option.splits)
qed

text \<open>
  C7, as the code has it: nothing validates a spec. For every spec, whatever its
  description and dimensions, a record that is not skipped has its prompt synthesized
  and sent to the service as the first API call, and \<open>build_prompt\<close> renders the
  description and the dimensions as they are.
\<close>

theorem no_spec_validation:
  "(\<not> (output_exists w p \<and> \<not> force a) \<longrightarrow>
      (\<exists>es. trace (fst (snd (process_record e a (p, sp) (w, c)))) =
             trace w @ Print (GeneratingLine p) # ApiCall (build_prompt sp) # es)) \<and>
   build_prompt sp =
     ''Generate a single game asset image. Art style: '' @ style_art_direction sp @
     ''. Type: '' @ style_extra sp @
     ''. Subject: '' @ meta_title sp @
     ''. Description: '' @ style_description sp @
     ''. Dimensions: '' @ str_int (width_px sp) @ ''x'' @ str_int (height_px sp) @
     '' pixels. Must have transparent background (PNG with alpha channel). '' @
     ''No text, no labels, no watermarks. Just the game asset sprite.''"
  using process_record_first_events [of w p a e sp c] build_prompt_unfold [of sp] by blast

theorem no_spec_validation_witness:
  "style_description bad_spec = [] \<and> width_px bad_spec = 0 \<and> height_px bad_spec = - 1 \<and>
   (\<exists>es. trace (fst (snd (process_record failing_env default_args (''tiles/void.png'', bad_spec)
            (empty_world, zero_counters)))) =
      Print (GeneratingLine ''tiles/void.png'') # ApiCall (build_prompt bad_spec) # es)"
proof -
  have a: "\<not> (output_exists empty_world ''tiles/void.png'' \<and> \<not> force default_args)"
    by (simp add: output_exists_def empty_world_def)
  have b: "trace empty_world = []" by (simp add: empty_world_def)
  have c: "style_description bad_spec = [] \<and> width_px bad_spec = 0 \<and> height_px bad_spec = - 1"
    by (simp add: bad_spec_def make_spec_def)
  from a no_spec_validation [of empty_world "''tiles/void.png''" default_args failing_env
      bad_spec zero_counters]
  have "\<exists>es. trace (fst (snd (process_record failing_env default_args (''tiles/void.png'', bad_spec)
            (empty_world, zero_counters)))) =
      trace empty_world @ Print (GeneratingLine ''tiles/void.png'') # ApiCall (build_prompt bad_spec) # es"
    by blast
  then have "\<exists>es. trace (fst (snd (process_record failing_env default_args (''tiles/void.png'', bad_spec)
            (empty_world, zero_counters)))) =
      Print (GeneratingLine ''tiles/void.png'') # ApiCall (build_prompt bad_spec) # es"
    by (simp add: b)
  with c show ?thesis by blast
qed

text \<open>
  C7 as stated fails: a spec with an empty description, width 0 and height -1 is not
  rejected. Its prompt is synthesized (it reads "Description: . Dimensions: 0x-1
  pixels.") and sent to the service, and the run ends normally.
\<close>

theorem no_spec_validation_counterexample:
  "style_description bad_spec = [] \<and> width_px bad_spec = 0 \<and> height_px bad_spec = - 1 \<and>
   build_prompt bad_spec =
     ''Generate a single game asset image. Art style: 2D pixel art, isometric view, '' @
     ''fantasy RPG style, warm color palette, soft shadows, 16-bit era aesthetic, '' @
     ''transparent background, game asset, consistent top-left lighting, '' @
     ''clean crisp pixel edges. Type: isometric diamond-shaped terrain tile, '' @
     ''top-down 2:1 ratio, 3D block with visible top face and two darker side faces '' @
     ''for depth. Subject: Void. Description: . Dimensions: 0x-1 pixels. '' @
     ''Must have transparent background (PNG with alpha channel). '' @
     ''No text, no labels, no watermarks. Just the game asset sprite.'' \<and>
   fst (main bad_catalog failing_env default_args empty_world) = Exit 0 \<and>
   ApiCall (build_prompt bad_spec) \<in>
     set (trace (snd (main bad_catalog failing_env default_args empty_world)))"
proof -
  have 1: "style_description bad_spec = [] \<and> width_px bad_spec = 0 \<and> height_px bad_spec = - 1"
    by (simp add: bad_spec_def make_spec_def)
  have 2: "build_prompt bad_spec =
     ''Generate a single game asset image. Art style: 2D pixel art, isometric view, '' @
     ''fantasy RPG style, warm color palette, soft shadows, 16-bit era aesthetic, '' @
     ''transparent background, game asset, consistent top-left lighting, '' @
     ''clean crisp pixel edges. Type: isometric diamond-shaped terrain tile, '' @
     ''top-down 2:1 ratio, 3D block with visible top face and two darker side faces '' @
     ''for depth. Subject: Void. Description: . Dimensions: 0x-1 pixels. '' @
     ''Must have transparent background (PNG with alpha channel). '' @
     ''No text, no labels, no watermarks. Just the game asset sprite.''"
    by (simp add: build_prompt_unfold bad_spec_def make_spec_def STYLE_PREFIX_def TILE_STYLE_def
        str_int_examples)
  have 3: "fst (main bad_catalog failing_env default_args empty_world) = Exit 0 \<and>
   ApiCall (build_prompt bad_spec) \<in>
     set (trace (snd (main bad_catalog failing_env default_args empty_world)))"
    by (simp add: run_simps bad_catalog_def)
  from 1 2 3 show ?thesis by blast
qed

lemma select_categories_None:
  "select_categories registry a = None \<longleftrightarrow>
     truthy (category a) \<and> map_of registry (the (category a)) = None"
  by (simp add: select_categories_def split: option.splits)

lemma process_record_raises:
  assumes "fst (process_record e a (p, sp) (w, c)) = Some x"
  shows "(\<not> no_post a \<and> pil_available e) \<or> sleep_error e (delay a) = Some x"
proof (cases "output_exists w p \<and> \<not> force a")
  case True
  with assms process_record_skip [of w p a e sp c] show ?thesis by simp
next
  case False
  let ?g = "generate_image e (build_prompt sp) p 2 (emit [Print (GeneratingLine p)] w)"
  have "fst (post_process e p (width_px sp) (height_px sp) (snd ?g)) = Some x \<Longrightarrow>
      pil_available e"
    by (auto simp: post_process_def split: if_splits)
  with assms process_record_generate [OF False, of e sp c] show ?thesis
    by (auto split: option.splits if_splits)
qed

lemma run_assets_raises:
  "fst (run_assets e a rs (w, c)) = Some x \<Longrightarrow>
   (\<not> no_post a \<and> pil_available e) \<or> sleep_error e (delay a) = Some x"
proof (induction rs arbitrary: w c)
  case Nil then show ?case by simp
next
  case (Cons r rs)
  obtain y w1 c1 where s: "process_record e a r (w, c) = (y, w1, c1)"
    by (cases "process_record e a r (w, c)") auto
  show ?case
  proof (cases y)
    case None
    with Cons.prems s have "fst (run_assets e a rs (w1, c1)) = Some x" by simp
    from Cons.IH [OF this] show ?thesis .
  next
    case (Some z)
    with Cons.prems s have "fst (process_record e a (fst r, snd r) (w, c)) = Some x" by simp
    from process_record_raises [OF this] show ?thesis .
  qed
qed

lemma run_categories_raises:
  "fst (run_categories e a cs (w, c)) = Some x \<Longrightarrow>
   (\<not> no_post a \<and> pil_available e) \<or> sleep_error e (delay a) = Some x"
proof (induction cs arbitrary: w c)
  case Nil then show ?case by simp
next
  case (Cons k cs)
  obtain cat_name assets where k: "k = (cat_name, assets)" by (cases k)
  let ?w0 = "emit [Print (CategoryLine cat_name (length assets))] w"
  obtain y w1 c1 where s: "run_assets e a assets (?w0, c) = (y, w1, c1)"
    by (cases "run_assets e a assets (?w0, c)") auto
  show ?case
  proof (cases y)
    case None
    with Cons.prems s k have "fst (run_categories e a cs (w1, c1)) = Some x" by simp
    from Cons.IH [OF this] show ?thesis .
  next
    case (Some z)
    with Cons.prems s k have "fst (run_assets e a assets (?w0, c)) = Some x" by simp
    from run_assets_raises [OF this] show ?thesis .
  qed
qed

lemma export_assets_frame:
  "files (snd (export_assets e dir sub rs w)) = files w \<and>
   n_calls (snd (export_assets e dir sub rs w)) = n_calls w"
proof (induction rs arbitrary: w)
  case Nil then show ?case by simp
next
  case (Cons r rs)
  obtain filepath sp where r: "r = (filepath, sp)" by (cases r)
  show ?case using Cons.IH [of "emit [WriteSpec sub filepath sp] w"]
    by (simp add: r emit_def split: option.splits)
qed

lemma export_categories_frame:
  "files (snd (export_categories e dir cs w)) = files w \<and>
   n_calls (snd (export_categories e dir cs w)) = n_calls w"
proof (induction cs arbitrary: w)
  case Nil then show ?case by simp
next
  case (Cons k cs)
  obtain cat_name assets where k: "k = (cat_name, assets)" by (cases k)
  obtain y w1 where s: "export_assets e dir cat_name assets w = (y, w1)"
    by (cases "export_assets e dir cat_name assets w")
  with export_assets_frame [of e dir cat_name assets w]
  have f: "files w1 = files w \<and> n_calls w1 = n_calls w" by simp
  show ?case using Cons.IH [of w1] f
    by (cases y) (simp_all add: k s split: option.splits)
qed

lemma export_specs_frame:
  "files (snd (export_specs e cs dir w)) = files w \<and>
   n_calls (snd (export_specs e cs dir w)) = n_calls w"
proof -
  obtain y w1 where s: "export_categories e dir cs w = (y, w1)"
    by (cases "export_categories e dir cs w")
  with export_categories_frame [of e dir cs w]
  have "files w1 = files w \<and> n_calls w1 = n_calls w" by simp
  then show ?thesis
    by (cases y) (simp_all add: export_specs_def s emit_def split: option.splits)
qed

lemma main_export:
  assumes "select_categories registry a = Some cs" and "\<not> list_flag a"
    and "truthy (export_specs_dir a)"
  shows "fst (main registry e a w) =
           (case fst (export_specs e cs (the (export_specs_dir a)) w) of
              None \<Rightarrow> Exit 0 | Some x \<Rightarrow> Traceback x) \<and>
         files (snd (main registry e a w)) = files w \<and>
         n_calls (snd (main registry e a w)) = n_calls w"
proof -
  obtain y w1 where s: "export_specs e cs (the (export_specs_dir a)) w = (y, w1)"
    by (cases "export_specs e cs (the (export_specs_dir a)) w")
  with export_specs_frame [of e cs "the (export_specs_dir a)" w]
  have "files w1 = files w \<and> n_calls w1 = n_calls w" by simp
  with assms s show ?thesis by (cases y) (simp_all add: main_def)
qed

text \<open>
  C8, as the code has it. A non-empty \<^verbatim>\<open>--category\<close> that is not a key of the registry
  ends the process with status 1 before anything else happens; an empty one is no filter.
  In generation mode (no \<^verbatim>\<open>--list\<close>, no \<^verbatim>\<open>--export-specs\<close>, no \<^verbatim>\<open>--dry-run\<close>) a
  missing or empty API key ends the process with status 1 before any API call. The list
  and dry-run modes end with status 0; the export mode ends with status 0 unless creating
  a directory or writing a file raises, which ends it with a traceback; the three leave
  the asset files and the service alone. A generation run ends with a traceback when the
  client cannot be built, or when post-processing or the pacing sleep raises; otherwise
  it ends with status 0 and prints the summary with its count of failed assets. A
  traceback, the unknown category and the missing key are the only ways to a status
  other than 0.
\<close>

theorem exit_status_contract:
  "(truthy (category a) \<and> map_of registry (the (category a)) = None \<longrightarrow>
      main registry e a w =
        (Exit 1, emit [Print (UnknownCategoryLine (the (category a))),
                       Print (AvailableLine (map fst registry))] w)) \<and>
   (select_categories registry a \<noteq> None \<and> \<not> list_flag a \<and> \<not> truthy (export_specs_dir a) \<and>
    \<not> dry_run a \<and> \<not> truthy (api_key e) \<longrightarrow>
      main registry e a w = (Exit 1, emit [Print NoApiKeyLine] w)) \<and>
   (select_categories registry a \<noteq> None \<and>
    (list_flag a \<or> (\<not> truthy (export_specs_dir a) \<and> dry_run a)) \<longrightarrow>
      exit_status (fst (main registry e a w)) = 0 \<and>
      files (snd (main registry e a w)) = files w \<and>
      n_calls (snd (main registry e a w)) = n_calls w) \<and>
   (\<forall>cs. select_categories registry a = Some cs \<and> \<not> list_flag a \<and>
      truthy (export_specs_dir a) \<longrightarrow>
      fst (main registry e a w) =
        (case fst (export_specs e cs (the (export_specs_dir a)) w) of
           None \<Rightarrow> Exit 0 | Some x \<Rightarrow> Traceback x) \<and>
      files (snd (main registry e a w)) = files w \<and>
      n_calls (snd (main registry e a w)) = n_calls w) \<and>
   (\<forall>cs. select_categories registry a = Some cs \<and> \<not> list_flag a \<and>
      \<not> truthy (export_specs_dir a) \<and> \<not> dry_run a \<and> truthy (api_key e) \<longrightarrow>
      (client_error e \<noteq> None \<longrightarrow>
         main registry e a w = (Traceback (the (client_error e)), w)) \<and>
      (client_error e = None \<longrightarrow>
         (\<forall>w1 c. run_categories e a cs (emit [Print BannerLine] w, zero_counters) = (None, w1, c) \<longrightarrow>
            main registry e a w = (Exit 0, emit (summary (length (all_assets cs)) c) w1)) \<and>
         (\<forall>x w1 c. run_categories e a cs (emit [Print BannerLine] w, zero_counters) = (Some x, w1, c) \<longrightarrow>
            main registry e a w = (Traceback x, w1) \<and>
            ((\<not> no_post a \<and> pil_available e) \<or> sleep_error e (delay a) = Some x)))) \<and>
   (exit_status (fst (main registry e a w)) \<noteq> 0 \<longleftrightarrow>
      (truthy (category a) \<and> map_of registry (the (category a)) = None) \<or>
      (select_categories registry a \<noteq> None \<and> \<not> list_flag a \<and> \<not> truthy (export_specs_dir a) \<and>
       \<not> dry_run a \<and> \<not> truthy (api_key e)) \<or>
      (\<exists>x. fst (main registry e a w) = Traceback x))"
proof -
  have 1: "truthy (category a) \<and> map_of registry (the (category a)) = None \<longrightarrow>
      main registry e a w =
        (Exit 1, emit [Print (UnknownCategoryLine (the (category a))),
                       Print (AvailableLine (map fst registry))] w)"
    by (simp add: main_def select_categories_def)
  have 2: "select_categories registry a \<noteq> None \<and> \<not> list_flag a \<and> \<not> truthy (export_specs_dir a) \<and>
    \<not> dry_run a \<and> \<not> truthy (api_key e) \<longrightarrow>
      main registry e a w = (Exit 1, emit [Print NoApiKeyLine] w)"
    by (auto simp: main_def)
  have 3: "select_categories registry a \<noteq> None \<and>
    (list_flag a \<or> (\<not> truthy (export_specs_dir a) \<and> dry_run a)) \<longrightarrow>
      exit_status (fst (main registry e a w)) = 0 \<and>
      files (snd (main registry e a w)) = files w \<and>
      n_calls (snd (main registry e a w)) = n_calls w"
    by (auto simp: main_def exit_status_def list_assets_def dry_run_report_def emit_def Let_def)
  have 4: "\<forall>cs. select_categories registry a = Some cs \<and> \<not> list_flag a \<and>
      truthy (export_specs_dir a) \<longrightarrow>
      fst (main registry e a w) =
        (case fst (export_specs e cs (the (export_specs_dir a)) w) of
           None \<Rightarrow> Exit 0 | Some x \<Rightarrow> Traceback x) \<and>
      files (snd (main registry e a w)) = files w \<and>
      n_calls (snd (main registry e a w)) = n_calls w"
    using main_export [of registry a _ e w] by blast
  have 5: "\<forall>cs. select_categories registry a = Some cs \<and> \<not> list_flag a \<and>
      \<not> truthy (export_specs_dir a) \<and> \<not> dry_run a \<and> truthy (api_key e) \<longrightarrow>
      (client_error e \<noteq> None \<longrightarrow>
         main registry e a w = (Traceback (the (client_error e)), w)) \<and>
      (client_error e = None \<longrightarrow>
         (\<forall>w1 c. run_categories e a cs (emit [Print BannerLine] w, zero_counters) = (None, w1, c) \<longrightarrow>
            main registry e a w = (Exit 0, emit (summary (length (all_assets cs)) c) w1)) \<and>
         (\<forall>x w1 c. run_categories e a cs (emit [Print BannerLine] w, zero_counters) = (Some x, w1, c) \<longrightarrow>
            main registry e a w = (Traceback x, w1) \<and>
            ((\<not> no_post a \<and> pil_available e) \<or> sleep_error e (delay a) = Some x)))"
  proof (intro allI impI conjI)
    fix cs
    assume "select_categories registry a = Some cs \<and> \<not> list_flag a \<and>
      \<not> truthy (export_specs_dir a) \<and> \<not> dry_run a \<and> truthy (api_key e)"
      and "client_error e \<noteq> None"
    then show "main registry e a w = (Traceback (the (client_error e)), w)"
      by (auto simp: main_def)
  next
    fix cs w1 c
    assume "select_categories registry a = Some cs \<and> \<not> list_flag a \<and>
      \<not> truthy (export_specs_dir a) \<and> \<not> dry_run a \<and> truthy (api_key e)"
      and "client_error e = None"
      and "run_categories e a cs (emit [Print BannerLine] w, zero_counters) = (None, w1, c)"
    then show "main registry e a w = (Exit 0, emit (summary (length (all_assets cs)) c) w1)"
      by (simp add: main_def Let_def all_assets_def)
  next
    fix cs x w1 c
    assume "select_categories registry a = Some cs \<and> \<not> list_flag a \<and>
      \<not> truthy (export_specs_dir a) \<and> \<not> dry_run a \<and> truthy (api_key e)"
      and "client_error e = None"
      and "run_categories e a cs (emit [Print BannerLine] w, zero_counters) = (Some x, w1, c)"
    then show "main registry e a w = (Traceback x, w1)"
      by (simp add: main_def Let_def)
  next
    fix cs x w1 c
    assume "run_categories e a cs (emit [Print BannerLine] w, zero_counters) = (Some x, w1, c)"
    then have "fst (run_categories e a cs (emit [Print BannerLine] w, zero_counters)) = Some x"
      by simp
    from run_categories_raises [OF this]
    show "(\<not> no_post a \<and> pil_available e) \<or> sleep_error e (delay a) = Some x" .
  qed
  have 6: "exit_status (fst (main registry e a w)) \<noteq> 0 \<longleftrightarrow>
      (truthy (category a) \<and> map_of registry (the (category a)) = None) \<or>
      (select_categories registry a \<noteq> None \<and> \<not> list_flag a \<and> \<not> truthy (export_specs_dir a) \<and>
       \<not> dry_run a \<and> \<not> truthy (api_key e)) \<or>
      (\<exists>x. fst (main registry e a w) = Traceback x)"
  proof (cases "select_categories registry a")
    case None
    then have "truthy (category a) \<and> map_of registry (the (category a)) = None"
      by (simp add: select_categories_None)
    with 1 show ?thesis by (simp add: exit_status_def)
  next
    case (Some cs)
    then have n: "\<not> (truthy (category a) \<and> map_of registry (the (category a)) = None)"
      using select_categories_None [of registry a] by simp
    obtain y w1 c where r: "run_categories e a cs (emit [Print BannerLine] w, zero_counters) = (y, w1, c)"
      by (cases "run_categories e a cs (emit [Print BannerLine] w, zero_counters)") auto
    obtain z w2 where x: "export_specs e cs (the (export_specs_dir a)) w = (z, w2)"
      by (cases "export_specs e cs (the (export_specs_dir a)) w")
    show ?thesis using Some n r x
      by (cases y; cases z) (auto simp: main_def exit_status_def Let_def)
  qed
  from 1 2 3 4 5 6 show ?thesis by blast
qed

theorem exit_status_contract_witness:
  "exit_status (fst (main demo_catalog demo_env (default_args\<lparr>category := Some ''castles''\<rparr>)
     empty_world)) = 1 \<and>
   snd (main demo_catalog demo_env (default_args\<lparr>category := Some ''castles''\<rparr>) empty_world)
     = emit [Print (UnknownCategoryLine ''castles''), Print (AvailableLine [''tiles''])] empty_world \<and>
   main demo_catalog (demo_env\<lparr>api_key := None\<rparr>) default_args empty_world
     = (Exit 1, emit [Print NoApiKeyLine] empty_world) \<and>
   exit_status (fst (main demo_catalog failing_env default_args empty_world)) = 0 \<and>
   exit_status (fst (main demo_catalog demo_env
     (default_args\<lparr>no_post := True, delay := Finite (2 ^ 70)\<rparr>) empty_world)) = 1"
proof -
  let ?a = "default_args\<lparr>category := Some ''castles''\<rparr>"
  have h1: "truthy (category ?a) \<and> map_of demo_catalog (the (category ?a)) = None"
    by (simp add: truthy_def demo_catalog_def)
  from h1 exit_status_contract [of ?a demo_catalog demo_env empty_world]
  have 1: "main demo_catalog demo_env ?a empty_world =
      (Exit 1, emit [Print (UnknownCategoryLine ''castles''), Print (AvailableLine [''tiles''])] empty_world)"
    by (simp add: demo_catalog_def)
  have h2: "select_categories demo_catalog default_args \<noteq> None \<and> \<not> list_flag default_args \<and>
      \<not> truthy (export_specs_dir default_args) \<and> \<not> dry_run default_args \<and>
      \<not> truthy (api_key (demo_env\<lparr>api_key := None\<rparr>))"
    by (simp add: select_categories_def truthy_def default_args_def)
  from h2 exit_status_contract [of default_args demo_catalog "demo_env\<lparr>api_key := None\<rparr>" empty_world]
  have 2: "main demo_catalog (demo_env\<lparr>api_key := None\<rparr>) default_args empty_world
     = (Exit 1, emit [Print NoApiKeyLine] empty_world)"
    by blast
  have h3: "\<not> (truthy (category default_args) \<and> map_of demo_catalog (the (category default_args)) = None)"
      "truthy (api_key failing_env)"
    by (simp_all add: truthy_def default_args_def failing_env_def demo_env_def)
  have h4: "\<not> (\<exists>x. fst (main demo_catalog failing_env default_args empty_world) = Traceback x)"
    by (simp add: failing_run)
  from h3 h4 exit_status_contract [of default_args demo_catalog failing_env empty_world]
  have 3: "exit_status (fst (main demo_catalog failing_env default_args empty_world)) = 0"
    by blast
  from slow_run exit_status_contract [of "default_args\<lparr>no_post := True, delay := Finite (2 ^ 70)\<rparr>"
      demo_catalog demo_env empty_world]
  have 4: "exit_status (fst (main demo_catalog demo_env
     (default_args\<lparr>no_post := True, delay := Finite (2 ^ 70)\<rparr>) empty_world)) \<noteq> 0"
    by blast
  have "exit_status (fst (main demo_catalog demo_env
     (default_args\<lparr>no_post := True, delay := Finite (2 ^ 70)\<rparr>) empty_world)) = 1"
    using slow_run by (simp add: exit_status_def)
  with 1 2 3 4 show ?thesis by (simp add: exit_status_def)
qed

text \<open>
  C8 as stated fails in two places. With the key present and no category filter, a
  payload that Pillow cannot identify makes \<open>post_process\<close> raise, which nothing
  catches: the status is 1. And \<^verbatim>\<open>--category ""\<close>, which names no category of the
  registry, is taken as no filter: the status is 0.
\<close>

theorem exit_status_contract_counterexample:
  "truthy (api_key garbled_env) \<and> category default_args = None \<and>
   fst (main demo_catalog garbled_env default_args empty_world) = Traceback UnidentifiedImageError \<and>
   exit_status (fst (main demo_catalog garbled_env default_args empty_world)) = 1 \<and>
   map_of demo_catalog '''' = None \<and>
   exit_status (fst (main demo_catalog demo_env
     (default_args\<lparr>category := Some '''', list_flag := True\<rparr>) empty_world)) = 0"
proof -
  have 1: "truthy (api_key garbled_env) \<and> category default_args = None"
    by (simp add: truthy_def garbled_env_def demo_env_def default_args_def)
  have 2: "exit_status (fst (main demo_catalog garbled_env default_args empty_world)) = 1"
    by (simp add: garbled_run exit_status_def)
  from 1 2 garbled_run empty_category_run show ?thesis by blast
qed

end
